theory Spec2Isabelle
  imports Complex_Main
begin

section \<open>Results and errors\<close>

text \<open>
  The routines of \<open>ffsim/fci.py\<close> are embedded as HOL functions. A Python exception is
  a value of type \<open>error\<close>, and a routine that can raise returns \<open>error + 'a\<close>. The
  entries of the arrays of the diagonal and one-body routines are exact numbers (elements
  of a field, the reals or the complex numbers); the two-body contraction takes the
  arithmetic of its entries as a parameter, so that overflow, infinities and NaN of the
  machine's floating point are within its reach.
\<close>

datatype error = ValueError | IndexError | TypeError | InvalidParameter

definition bind_res :: "error + 'a \<Rightarrow> ('a \<Rightarrow> error + 'b) \<Rightarrow> error + 'b" where
  "bind_res m f = (case m of Inl e \<Rightarrow> Inl e | Inr x \<Rightarrow> f x)"

text \<open>
  A numpy array of numbers has a dtype, float64 or complex128 here. Where the dtype of
  an array matters, the array is the pair of its dtype and its values.
  \<open>result_type\<close> is the dtype numpy gives the result of an operation on two arrays,
  \<open>can_cast\<close> its rule for storing a value of one dtype into an array of another
  (an in-place operator refuses to store a complex value into a real array).
\<close>

datatype dtype = Float64 | Complex128

type_synonym 'a ndarray = "dtype \<times> 'a"

definition result_type :: "dtype \<Rightarrow> dtype \<Rightarrow> dtype" where
  "result_type d1 d2 = (if d1 = Complex128 \<or> d2 = Complex128 then Complex128 else Float64)"

definition can_cast :: "dtype \<Rightarrow> dtype \<Rightarrow> bool" where
  "can_cast from_dtype to_dtype = (\<not> (from_dtype = Complex128 \<and> to_dtype = Float64))"

section \<open>Dimension of the FCI space\<close>

text \<open>
  \<open>scipy.special.comb(N, k, exact=True)\<close> is a library routine. Its documentation says
  that with \<open>exact=True\<close> the result is computed with arbitrary-precision integers, and
  that 0 is returned when \<open>k > N\<close>, \<open>N < 0\<close> or \<open>k < 0\<close>. It raises nothing on integers.
\<close>

definition comb :: "int \<Rightarrow> int \<Rightarrow> int" where
  "comb N k = (if k > N \<or> N < 0 \<or> k < 0 then 0 else int (nat N choose nat k))"

text \<open>\<open>get_dimension\<close> (fci.py, lines 66-71): unpack the pair, two calls of \<open>comb\<close>,
  the product. No path of the function raises.\<close>

definition get_dimension :: "int \<Rightarrow> int \<times> int \<Rightarrow> error + int" where
  "get_dimension norb nelec =
     (case nelec of (n_alpha, n_beta) \<Rightarrow>
        (let dim_a = comb norb n_alpha;
             dim_b = comb norb n_beta
         in Inr (dim_a * dim_b)))"

section \<open>Arrays\<close>

text \<open>
  A one-dimensional array (a CI vector, an integral tensor before \<open>reshape\<close>) is the
  list of its entries in C order. A view of higher rank is a function from indices to
  entries next to its extents, which are always known where the view is made:
  \<open>v.reshape(na, nb)\<close> is \<open>reshape2 nb v\<close>, and \<open>reshape(-1)\<close> of an
  \<open>na\<close> by \<open>nb\<close> view is \<open>flatten2 na nb\<close>.
\<close>

definition reshape2 :: "nat \<Rightarrow> 'a list \<Rightarrow> nat \<Rightarrow> nat \<Rightarrow> 'a" where
  "reshape2 nb v = (\<lambda>A B. v ! (A * nb + B))"

definition flatten2 :: "nat \<Rightarrow> nat \<Rightarrow> (nat \<Rightarrow> nat \<Rightarrow> 'a) \<Rightarrow> 'a list" where
  "flatten2 na nb m = map (\<lambda>k. m (k div nb) (k mod nb)) [0..<na * nb]"

definition reshape4 :: "nat \<Rightarrow> 'a list \<Rightarrow> nat \<Rightarrow> nat \<Rightarrow> nat \<Rightarrow> nat \<Rightarrow> 'a" where
  "reshape4 n v = (\<lambda>b j a i. v ! (((b * n + j) * n + a) * n + i))"

text \<open>An index taken from an integer array: numpy counts a negative index from the end
  and raises IndexError outside \<open>[-n, n)\<close>.\<close>

definition py_index :: "nat \<Rightarrow> int \<Rightarrow> nat option" where
  "py_index n k =
     (if 0 \<le> k \<and> k < int n then Some (nat k)
      else if - int n \<le> k \<and> k < 0 then Some (nat (k + int n))
      else None)"

text \<open>A \<open>for\<close> loop over a list whose body may raise: the first error ends the loop.\<close>

fun fold_res :: "('x \<Rightarrow> 's \<Rightarrow> error + 's) \<Rightarrow> 'x list \<Rightarrow> 's \<Rightarrow> error + 's" where
  "fold_res f [] s = Inr s"
| "fold_res f (x # xs) s = bind_res (f x s) (fold_res f xs)"

section \<open>The two-body contraction\<close>

text \<open>
  The particle count of \<open>contract_2e\<close> is either one integer or a pair
  (fci.py, lines 33-37). \<open>cistring.num_strings(n, m)\<close> of pyscf is the number of
  strings with \<open>m\<close> of \<open>n\<close> orbitals occupied, 0 when \<open>m < 0\<close> or \<open>m > n\<close>.
  A link index is, for every source address, the list of its entries
  \<open>(a, i, str1, sign)\<close>; \<open>cistring.gen_linkstr_index\<close> of pyscf, which builds one, is a
  parameter \<open>gen\<close> of the model.
\<close>

datatype nelec_arg = NelecTotal int | NelecPair int int

definition unpack_nelec :: "nelec_arg \<Rightarrow> int \<times> int" where
  "unpack_nelec nelec =
     (case nelec of
        NelecTotal n \<Rightarrow> (let nelecb = n div 2; neleca = n - nelecb in (neleca, nelecb))
      | NelecPair neleca nelecb \<Rightarrow> (neleca, nelecb))"

definition num_strings :: "int \<Rightarrow> int \<Rightarrow> int" where
  "num_strings n m = (if m < 0 \<or> m > n then 0 else int (nat n choose nat m))"

type_synonym link_entry = "int \<times> int \<times> int \<times> int"
type_synonym link_table = "link_entry list list"
type_synonym 'a view2 = "nat \<Rightarrow> nat \<Rightarrow> 'a"
type_synonym 'a view4 = "nat \<Rightarrow> nat \<Rightarrow> nat \<Rightarrow> nat \<Rightarrow> 'a"

text \<open>
  The entries of the arrays of \<open>contract_2e\<close> are machine numbers: the arithmetic on
  them is a parameter \<open>ar\<close> of the model, so that what is proved holds for the
  arithmetic of the machine and not only for exact numbers. \<open>ar_of_int\<close> turns the
  integer \<open>sign\<close> of a link entry into an array entry.
\<close>

record 'a arith =
  ar_zero :: 'a
  ar_add :: "'a \<Rightarrow> 'a \<Rightarrow> 'a"
  ar_mul :: "'a \<Rightarrow> 'a \<Rightarrow> 'a"
  ar_of_int :: "int \<Rightarrow> 'a"

text \<open>The arithmetic of exact numbers.\<close>

definition exact_arith :: "('a::comm_ring_1) arith" where
  "exact_arith = \<lparr>ar_zero = 0, ar_add = (+), ar_mul = (*), ar_of_int = of_int\<rparr>"

text \<open>
  The arithmetic of float64 as far as overflow, infinities and NaN go: a number inside
  the range of float64 is taken as it is (rounding inside the range and the sign of zero
  are left out), a result beyond the largest float64 is an infinity, and infinities and
  NaN combine as in IEEE 754: \<open>inf - inf\<close> and \<open>0 * inf\<close> are NaN, and NaN absorbs.
\<close>

datatype float64 = Fin real | PInf | NInf | NaN

definition max_float64 :: real where
  "max_float64 = (2 - 1 / 2 ^ 52) * 2 ^ 1023"

definition float64_of_real :: "real \<Rightarrow> float64" where
  "float64_of_real r =
     (if r > max_float64 then PInf else if r < - max_float64 then NInf else Fin r)"

fun float64_add :: "float64 \<Rightarrow> float64 \<Rightarrow> float64" where
  "float64_add NaN y = NaN"
| "float64_add x NaN = NaN"
| "float64_add (Fin a) (Fin b) = float64_of_real (a + b)"
| "float64_add PInf NInf = NaN"
| "float64_add NInf PInf = NaN"
| "float64_add PInf y = PInf"
| "float64_add NInf y = NInf"
| "float64_add x PInf = PInf"
| "float64_add x NInf = NInf"

fun float64_mul :: "float64 \<Rightarrow> float64 \<Rightarrow> float64" where
  "float64_mul NaN y = NaN"
| "float64_mul x NaN = NaN"
| "float64_mul (Fin a) (Fin b) = float64_of_real (a * b)"
| "float64_mul (Fin a) PInf = (if a = 0 then NaN else if 0 < a then PInf else NInf)"
| "float64_mul (Fin a) NInf = (if a = 0 then NaN else if 0 < a then NInf else PInf)"
| "float64_mul PInf (Fin b) = (if b = 0 then NaN else if 0 < b then PInf else NInf)"
| "float64_mul NInf (Fin b) = (if b = 0 then NaN else if 0 < b then NInf else PInf)"
| "float64_mul PInf PInf = PInf"
| "float64_mul NInf NInf = PInf"
| "float64_mul PInf NInf = NInf"
| "float64_mul NInf PInf = NInf"

definition float64_arith :: "float64 arith" where
  "float64_arith = \<lparr>ar_zero = Fin 0, ar_add = float64_add, ar_mul = float64_mul,
                      ar_of_int = (\<lambda>k. Fin (of_int k))\<rparr>"

text \<open>Line 49, \<open>t1[a, i, str1] += sign * ci0[str0]\<close>, and line 52,
  \<open>t1[a, i, :, str1] += sign * ci0[:, str0]\<close>. \<open>t1\<close> has the dtype of the vector, so
  that the sum is stored as it is.\<close>

definition t1_add_a ::
  "'a arith \<Rightarrow> nat \<Rightarrow> nat \<Rightarrow> 'a view2 \<Rightarrow> nat \<Rightarrow> link_entry \<Rightarrow> 'a view4 \<Rightarrow> error + 'a view4" where
  "t1_add_a ar norb na ci0 str0 e t1 =
     (case e of (a, i, str1, sign) \<Rightarrow>
        (case (py_index norb a, py_index norb i, py_index na str1) of
           (Some a', Some i', Some s') \<Rightarrow>
             if str0 < na
             then Inr (\<lambda>p q A B. if p = a' \<and> q = i' \<and> A = s'
                                   then ar_add ar (t1 p q A B)
                                          (ar_mul ar (ar_of_int ar sign) (ci0 str0 B))
                                   else t1 p q A B)
             else Inl IndexError
         | _ \<Rightarrow> Inl IndexError))"

definition t1_add_b ::
  "'a arith \<Rightarrow> nat \<Rightarrow> nat \<Rightarrow> 'a view2 \<Rightarrow> nat \<Rightarrow> link_entry \<Rightarrow> 'a view4 \<Rightarrow> error + 'a view4" where
  "t1_add_b ar norb nb ci0 str0 e t1 =
     (case e of (a, i, str1, sign) \<Rightarrow>
        (case (py_index norb a, py_index norb i, py_index nb str1) of
           (Some a', Some i', Some s') \<Rightarrow>
             if str0 < nb
             then Inr (\<lambda>p q A B. if p = a' \<and> q = i' \<and> B = s'
                                   then ar_add ar (t1 p q A B)
                                          (ar_mul ar (ar_of_int ar sign) (ci0 A str0))
                                   else t1 p q A B)
             else Inl IndexError
         | _ \<Rightarrow> Inl IndexError))"

text \<open>Line 59, \<open>fcinew[str1] += sign * t1[a, i, str0]\<close>, and line 62,
  \<open>fcinew[:, str1] += sign * t1[a, i, :, str0]\<close>. Both sides are indexed first
  (IndexError); then numpy adds in place, and raises a TypeError when the product cannot
  be cast to the dtype of \<open>fcinew\<close> (\<open>cast_ok\<close> is false).\<close>

definition fcinew_add_a ::
  "'a arith \<Rightarrow> bool \<Rightarrow> nat \<Rightarrow> nat \<Rightarrow> 'a view4 \<Rightarrow> nat \<Rightarrow> link_entry \<Rightarrow> 'a view2 \<Rightarrow>
   error + 'a view2" where
  "fcinew_add_a ar cast_ok norb na t1 str0 e fcinew =
     (case e of (a, i, str1, sign) \<Rightarrow>
        (case (py_index norb a, py_index norb i, py_index na str1) of
           (Some a', Some i', Some s') \<Rightarrow>
             if str0 < na
             then if cast_ok
                  then Inr (\<lambda>A B. if A = s'
                                    then ar_add ar (fcinew A B)
                                           (ar_mul ar (ar_of_int ar sign) (t1 a' i' str0 B))
                                    else fcinew A B)
                  else Inl TypeError
             else Inl IndexError
         | _ \<Rightarrow> Inl IndexError))"

definition fcinew_add_b ::
  "'a arith \<Rightarrow> bool \<Rightarrow> nat \<Rightarrow> nat \<Rightarrow> 'a view4 \<Rightarrow> nat \<Rightarrow> link_entry \<Rightarrow> 'a view2 \<Rightarrow>
   error + 'a view2" where
  "fcinew_add_b ar cast_ok norb nb t1 str0 e fcinew =
     (case e of (a, i, str1, sign) \<Rightarrow>
        (case (py_index norb a, py_index norb i, py_index nb str1) of
           (Some a', Some i', Some s') \<Rightarrow>
             if str0 < nb
             then if cast_ok
                  then Inr (\<lambda>A B. if B = s'
                                    then ar_add ar (fcinew A B)
                                           (ar_mul ar (ar_of_int ar sign) (t1 a' i' A str0))
                                    else fcinew A B)
                  else Inl TypeError
             else Inl IndexError
         | _ \<Rightarrow> Inl IndexError))"

text \<open>The two nested loops over a link index, \<open>for str0, tab in enumerate(link_index)\<close>
  and \<open>for a, i, str1, sign in tab\<close>, with the body \<open>step str0 entry\<close>.\<close>

definition link_loop ::
  "(nat \<Rightarrow> link_entry \<Rightarrow> 's \<Rightarrow> error + 's) \<Rightarrow> link_table \<Rightarrow> 's \<Rightarrow> error + 's" where
  "link_loop step link_index s =
     fold_res (\<lambda>(str0, tab). fold_res (step str0) tab) (enumerate 0 link_index) s"

text \<open>Lines 46-52: the intermediate tensor \<open>t1\<close>, zeros of the dtype of the vector and
  then the two passes over the link indices.\<close>

definition excitation_tensor ::
  "'a arith \<Rightarrow> nat \<Rightarrow> nat \<Rightarrow> nat \<Rightarrow> 'a view2 \<Rightarrow> link_table \<Rightarrow> link_table \<Rightarrow> error + 'a view4" where
  "excitation_tensor ar norb na nb ci0 link_indexa link_indexb =
     bind_res (link_loop (t1_add_a ar norb na ci0) link_indexa (\<lambda>p q A B. ar_zero ar))
       (\<lambda>t1. link_loop (t1_add_b ar norb nb ci0) link_indexb t1)"

text \<open>Line 54, \<open>lib.einsum("bjai,aiAB->bjAB", eri.reshape([norb] * 4), t1)\<close>: the sum of
  the products over \<open>a\<close> and \<open>i\<close>, added up from the last term to the first (the order
  in which the library adds is not known).\<close>

definition ar_sum :: "'a arith \<Rightarrow> 'a list \<Rightarrow> 'a" where
  "ar_sum ar xs = foldr (ar_add ar) xs (ar_zero ar)"

definition einsum_bjai_aiAB :: "'a arith \<Rightarrow> nat \<Rightarrow> 'a view4 \<Rightarrow> 'a view4 \<Rightarrow> 'a view4" where
  "einsum_bjai_aiAB ar norb eri4 t1 =
     (\<lambda>b j A B. ar_sum ar (map (\<lambda>a. ar_sum ar (map (\<lambda>i. ar_mul ar (eri4 b j a i) (t1 a i A B))
                                                   [0..<norb])) [0..<norb]))"

text \<open>Lines 38-42: a link index that is not supplied is generated for both sectors.\<close>

definition resolve_link_index ::
  "(int \<Rightarrow> int \<Rightarrow> link_table) \<Rightarrow> int \<Rightarrow> int \<Rightarrow> int \<Rightarrow> (link_table \<times> link_table) option \<Rightarrow>
   link_table \<times> link_table" where
  "resolve_link_index gen norb neleca nelecb link_index =
     (case link_index of
        None \<Rightarrow> (gen norb neleca, gen norb nelecb)
      | Some li \<Rightarrow> li)"

text \<open>\<open>contract_2e\<close> (fci.py, lines 29-63). \<open>reshape\<close> raises ValueError when the
  number of entries does not fit, \<open>np.zeros\<close> when an extent is negative. \<open>t1\<close> and
  \<open>fcinew\<close> have the dtype of the vector (lines 46 and 56), the result of einsum has the
  common dtype of the tensor and of \<open>t1\<close>, and the result has the dtype of the vector.\<close>

definition contract_2e ::
  "'a arith \<Rightarrow> (int \<Rightarrow> int \<Rightarrow> link_table) \<Rightarrow> 'a list ndarray \<Rightarrow> 'a list ndarray \<Rightarrow> int \<Rightarrow>
   nelec_arg \<Rightarrow> (link_table \<times> link_table) option \<Rightarrow> error + 'a list ndarray" where
  "contract_2e ar gen eri fcivec norb nelec link_index =
     (case unpack_nelec nelec of (neleca, nelecb) \<Rightarrow>
      (case resolve_link_index gen norb neleca nelecb link_index of (link_indexa, link_indexb) \<Rightarrow>
       (let na = nat (num_strings norb neleca);
            nb = nat (num_strings norb nelecb)
        in if length (snd fcivec) \<noteq> na * nb \<or> norb < 0 then Inl ValueError
           else
             (let n = nat norb;
                  ci0 = reshape2 nb (snd fcivec)
              in bind_res (excitation_tensor ar n na nb ci0 link_indexa link_indexb) (\<lambda>t1.
                 if length (snd eri) \<noteq> n ^ 4 then Inl ValueError
                 else
                   (let t1 = einsum_bjai_aiAB ar n (reshape4 n (snd eri)) t1;
                        t1_dtype = result_type (fst eri) (fst fcivec);
                        cast_ok = can_cast t1_dtype (fst fcivec)
                    in bind_res (link_loop (fcinew_add_a ar cast_ok n na t1) link_indexa
                                   (\<lambda>A B. ar_zero ar)) (\<lambda>fcinew.
                       bind_res (link_loop (fcinew_add_b ar cast_ok n nb t1) link_indexb fcinew)
                         (\<lambda>fcinew.
                       Inr (fst fcivec, flatten2 na nb fcinew)))))))))"

text \<open>
  A link index fits a sector of \<open>n\<close> addresses over \<open>norb\<close> orbitals when it has at most
  \<open>n\<close> rows and every entry indexes inside the arrays: the orbitals \<open>a\<close>, \<open>i\<close> inside
  \<open>norb\<close>, the destination address inside \<open>n\<close>.
\<close>

definition entry_ok :: "nat \<Rightarrow> nat \<Rightarrow> link_entry \<Rightarrow> bool" where
  "entry_ok norb n e =
     (case e of (a, i, str1, sign) \<Rightarrow>
        py_index norb a \<noteq> None \<and> py_index norb i \<noteq> None \<and> py_index n str1 \<noteq> None)"

definition link_index_ok :: "nat \<Rightarrow> nat \<Rightarrow> link_table \<Rightarrow> bool" where
  "link_index_ok norb n li = (length li \<le> n \<and> list_all (list_all (entry_ok norb n)) li)"

section \<open>Two-dimensional arrays\<close>

text \<open>
  A two-dimensional numpy array (a coupling matrix, a CI vector seen as a matrix) is its
  extents and its entries. \<open>reshape_2d\<close> is \<open>v.reshape((r, c))\<close>, \<open>ravel\<close> is
  \<open>a.reshape(-1)\<close>, \<open>transpose_2d\<close> is \<open>a.T\<close>.
\<close>

record 'a array2 =
  nrows :: nat
  ncols :: nat
  entry :: "nat \<Rightarrow> nat \<Rightarrow> 'a"

definition reshape_2d :: "nat \<Rightarrow> nat \<Rightarrow> 'a list \<Rightarrow> error + 'a array2" where
  "reshape_2d r c v =
     (if length v = r * c then Inr \<lparr>nrows = r, ncols = c, entry = reshape2 c v\<rparr>
      else Inl ValueError)"

definition zeros_like :: "('a::zero) array2 \<Rightarrow> 'a array2" where
  "zeros_like a = \<lparr>nrows = nrows a, ncols = ncols a, entry = (\<lambda>i j. 0)\<rparr>"

definition transpose_2d :: "'a array2 \<Rightarrow> 'a array2" where
  "transpose_2d a = \<lparr>nrows = ncols a, ncols = nrows a, entry = (\<lambda>i j. entry a j i)\<rparr>"

definition ravel :: "'a array2 \<Rightarrow> 'a list" where
  "ravel a = flatten2 (nrows a) (ncols a) (entry a)"

text \<open>A matrix written down by its rows, \<open>c\<close> entries each; it is read inside its
  extents only.\<close>

definition of_rows :: "nat \<Rightarrow> 'a list list \<Rightarrow> 'a array2" where
  "of_rows c rows = \<lparr>nrows = length rows, ncols = c, entry = (\<lambda>i j. rows ! i ! j)\<rparr>"

section \<open>Occupation lists\<close>

text \<open>
  An occupation list has one row per address, the occupied orbitals of its string
  (unsigned integers). \<open>cistring._gen_occslst\<close> of pyscf, which builds the list of a
  sector, is a parameter \<open>gen_occ\<close> of the model.
\<close>

type_synonym occupations = "nat list list"

definition resolve_occupations ::
  "(int \<Rightarrow> int \<Rightarrow> occupations) \<Rightarrow> int \<Rightarrow> int \<Rightarrow> occupations option \<Rightarrow> occupations" where
  "resolve_occupations gen_occ norb n occ =
     (case occ of None \<Rightarrow> gen_occ norb n | Some t \<Rightarrow> t)"


section \<open>The number-operator sum\<close>

text \<open>
  Modelled from the spec: the compiled kernel \<open>contract_num_op_sum_spin_into_buffer\<close> of
  \<open>ffsim._ffsim\<close> is not among the sources. Section 4.5 of the spec: a diagonal scaling
  using the occupation list only, applied to one axis by summing the coefficients of the
  occupied orbitals of each address and broadcasting over the other axis; the two calls
  on one output buffer add up. Section 7: a table that does not fit the arrays is an
  InvalidParameter, detected at the start.
\<close>

definition contract_num_op_sum_spin_into_buffer ::
  "('a::field) array2 \<Rightarrow> 'a list \<Rightarrow> occupations \<Rightarrow> 'a array2 \<Rightarrow> error + 'a array2" where
  "contract_num_op_sum_spin_into_buffer vec coeffs occupations out =
     (if length occupations = nrows vec \<and> nrows out = nrows vec \<and> ncols out = ncols vec \<and>
         list_all (list_all (\<lambda>orb. orb < length coeffs)) occupations
      then Inr \<lparr>nrows = nrows out, ncols = ncols out,
                entry = (\<lambda>r c. if r < nrows vec \<and> c < ncols vec
                                then entry out r c
                                     + sum_list (map (\<lambda>orb. coeffs ! orb) (occupations ! r))
                                       * entry vec r c
                                else entry out r c)\<rparr>
      else Inl InvalidParameter)"

text \<open>\<open>contract_num_op_sum\<close> (fci.py, lines 152-188).\<close>

definition contract_num_op_sum ::
  "(int \<Rightarrow> int \<Rightarrow> occupations) \<Rightarrow> ('a::field) list \<Rightarrow> 'a list \<Rightarrow> int \<Rightarrow> int \<times> int \<Rightarrow>
   occupations option \<Rightarrow> occupations option \<Rightarrow> error + 'a list" where
  "contract_num_op_sum gen_occ vec coeffs norb nelec occupations_a occupations_b =
     (case nelec of (n_alpha, n_beta) \<Rightarrow>
        (let occ_a = resolve_occupations gen_occ norb n_alpha occupations_a;
             occ_b = resolve_occupations gen_occ norb n_beta occupations_b;
             dim_a = comb norb n_alpha;
             dim_b = comb norb n_beta
         in bind_res (reshape_2d (nat dim_a) (nat dim_b) vec) (\<lambda>vec2.
            bind_res (contract_num_op_sum_spin_into_buffer vec2 coeffs occ_a (zeros_like vec2))
              (\<lambda>out_a.
            bind_res (contract_num_op_sum_spin_into_buffer (transpose_2d vec2) coeffs occ_b
                        (transpose_2d out_a)) (\<lambda>out_b.
            Inr (ravel (transpose_2d out_b)))))))"

section \<open>The diagonal Coulomb operator\<close>

text \<open>Lines 245-246, \<open>mat = mat.copy()\<close> and \<open>mat[np.diag_indices(norb)] *= 0.5\<close>: the
  value of the halved copy. The fancy index raises IndexError when \<open>norb\<close> exceeds an
  extent, and selects nothing when \<open>norb\<close> is not positive.\<close>

definition halve_diagonal :: "int \<Rightarrow> ('a::field) array2 \<Rightarrow> error + 'a array2" where
  "halve_diagonal norb mat =
     (if norb \<le> int (nrows mat) \<and> norb \<le> int (ncols mat)
      then Inr \<lparr>nrows = nrows mat, ncols = ncols mat,
                entry = (\<lambda>i j. if i = j \<and> int i < norb then entry mat i j * (1 / 2)
                                else entry mat i j)\<rparr>
      else Inl IndexError)"

text \<open>
  Modelled from the spec: the compiled kernel \<open>contract_diag_coulomb_into_buffer\<close> of
  \<open>ffsim._ffsim\<close> is not among the sources. Section 4.4 of the spec: every amplitude is
  scaled by the eigenvalue of its determinant, with no mixing; the same-spin double sum
  runs over the matrix whose diagonal was halved and counts each unordered pair of
  occupied orbitals once (the diagonal pairs included); the cross-spin sum runs over all
  pairs of an alpha and a beta orbital; only the occupation lists are used. The result is
  accumulated into the output buffer. Section 7: tables and matrices that do not fit
  \<open>norb\<close> and the vector are an InvalidParameter, detected at the start.
\<close>

fun pair_sum :: "(nat \<Rightarrow> nat \<Rightarrow> 'a::field) \<Rightarrow> nat list \<Rightarrow> 'a" where
  "pair_sum m [] = 0"
| "pair_sum m (x # xs) = sum_list (map (m x) (x # xs)) + pair_sum m xs"

text \<open>Modelled from the spec: the cross-spin sum of the same kernel, over all pairs of
  an occupied alpha orbital and an occupied beta orbital (section 4.4).\<close>

definition cross_sum :: "(nat \<Rightarrow> nat \<Rightarrow> 'a::field) \<Rightarrow> nat list \<Rightarrow> nat list \<Rightarrow> 'a" where
  "cross_sum m xs ys = sum_list (map (\<lambda>i. sum_list (map (m i) ys)) xs)"

text \<open>Modelled from the spec: the kernel \<open>contract_diag_coulomb_into_buffer\<close> itself,
  absent from the sources as said above: the check of section 7, then every amplitude
  times the eigenvalue of its determinant, added to the output buffer (section 4.4).\<close>

definition contract_diag_coulomb_into_buffer ::
  "('a::field) array2 \<Rightarrow> 'a array2 \<Rightarrow> int \<Rightarrow> 'a array2 \<Rightarrow> occupations \<Rightarrow> occupations \<Rightarrow>
   'a array2 \<Rightarrow> error + 'a array2" where
  "contract_diag_coulomb_into_buffer vec mat norb mat_alpha_beta occupations_a occupations_b out =
     (if 0 \<le> norb \<and> nrows mat = nat norb \<and> ncols mat = nat norb \<and>
         nrows mat_alpha_beta = nat norb \<and> ncols mat_alpha_beta = nat norb \<and>
         nrows out = nrows vec \<and> ncols out = ncols vec \<and>
         length occupations_a = nrows vec \<and> length occupations_b = ncols vec \<and>
         list_all (list_all (\<lambda>orb. orb < nat norb)) occupations_a \<and>
         list_all (list_all (\<lambda>orb. orb < nat norb)) occupations_b
      then Inr \<lparr>nrows = nrows out, ncols = ncols out,
                entry = (\<lambda>a b. if a < nrows vec \<and> b < ncols vec
                                then entry out a b
                                     + (pair_sum (entry mat) (occupations_a ! a)
                                        + pair_sum (entry mat) (occupations_b ! b)
                                        + cross_sum (entry mat_alpha_beta)
                                            (occupations_a ! a) (occupations_b ! b))
                                       * entry vec a b
                                else entry out a b)\<rparr>
      else Inl InvalidParameter)"

text \<open>\<open>contract_diag_coulomb\<close> (fci.py, lines 219-259): the value it returns.\<close>

definition contract_diag_coulomb ::
  "(int \<Rightarrow> int \<Rightarrow> occupations) \<Rightarrow> ('a::field) list \<Rightarrow> 'a array2 \<Rightarrow> int \<Rightarrow> int \<times> int \<Rightarrow>
   'a array2 option \<Rightarrow> occupations option \<Rightarrow> occupations option \<Rightarrow> error + 'a list" where
  "contract_diag_coulomb gen_occ vec mat norb nelec mat_alpha_beta occupations_a occupations_b =
     (let mat_ab = (case mat_alpha_beta of None \<Rightarrow> mat | Some m \<Rightarrow> m)
      in case nelec of (n_alpha, n_beta) \<Rightarrow>
        (let dim_a = comb norb n_alpha;
             dim_b = comb norb n_beta;
             occ_a = resolve_occupations gen_occ norb n_alpha occupations_a;
             occ_b = resolve_occupations gen_occ norb n_beta occupations_b
         in bind_res (halve_diagonal norb mat) (\<lambda>mat_h.
            bind_res (reshape_2d (nat dim_a) (nat dim_b) vec) (\<lambda>vec2.
            bind_res (contract_diag_coulomb_into_buffer vec2 mat_h norb mat_ab occ_a occ_b
                        (zeros_like vec2)) (\<lambda>out.
            Inr (ravel out))))))"

section \<open>Single determinants and their eigenvalues\<close>

text \<open>
  A single Slater determinant is a CI vector with one unit amplitude, at the address of
  the determinant, and zeros elsewhere. The eigenvalue of the diagonal Coulomb operator on
  the determinant with occupied-orbital sets \<open>O_alpha\<close> and \<open>O_beta\<close>, in the words of
  section 4.4 of the spec, with \<open>m\<close> the same-spin matrix as the caller gives it:
\<close>

definition basis_vector :: "nat \<Rightarrow> nat \<Rightarrow> ('a::zero_neq_one) list" where
  "basis_vector n k = (replicate n 0)[k := 1]"




section \<open>Linear operators\<close>

text \<open>
  Modelled from the spec: which dtypes the compiled kernels of \<open>ffsim._ffsim\<close> accept is
  not in the sources. Section 3 of the spec has a complex operand force a complex
  result, which the buffers of a real vector cannot hold, and section 7 has a failure
  reported to the caller rather than a value silently truncated: a kernel given a
  complex matrix or coefficient vector together with the buffers of a real vector
  reports InvalidParameter.
\<close>

definition kernel_dtypes_ok :: "dtype \<Rightarrow> dtype list \<Rightarrow> bool" where
  "kernel_dtypes_ok buffer_dtype operand_dtypes =
     list_all (\<lambda>d. can_cast d buffer_dtype) operand_dtypes"

text \<open>
  \<open>contract_num_op_sum\<close> (lines 152-188) and \<open>contract_diag_coulomb\<close> (lines 219-259) on
  arrays that carry their dtype. The values are those of the two functions above. The
  array returned is the buffer \<open>out = np.zeros_like(vec)\<close> (lines 176 and 248), reshaped:
  it has the dtype of the vector, whatever the dtype of the matrix or of the
  coefficients. The kernel is called after the reshape and the halving of the diagonal,
  whose errors come first.
\<close>

definition contract_num_op_sum_typed ::
  "(int \<Rightarrow> int \<Rightarrow> occupations) \<Rightarrow> ('a::field) list ndarray \<Rightarrow> 'a list ndarray \<Rightarrow> int \<Rightarrow>
   int \<times> int \<Rightarrow> occupations option \<Rightarrow> occupations option \<Rightarrow> error + 'a list ndarray" where
  "contract_num_op_sum_typed gen_occ vec coeffs norb nelec occupations_a occupations_b =
     bind_res (contract_num_op_sum gen_occ (snd vec) (snd coeffs) norb nelec
                 occupations_a occupations_b) (\<lambda>out.
       if kernel_dtypes_ok (fst vec) [fst coeffs] then Inr (fst vec, out)
       else Inl InvalidParameter)"

definition contract_diag_coulomb_typed ::
  "(int \<Rightarrow> int \<Rightarrow> occupations) \<Rightarrow> ('a::field) list ndarray \<Rightarrow> 'a array2 ndarray \<Rightarrow> int \<Rightarrow>
   int \<times> int \<Rightarrow> 'a array2 ndarray option \<Rightarrow> occupations option \<Rightarrow> occupations option \<Rightarrow>
   error + 'a list ndarray" where
  "contract_diag_coulomb_typed gen_occ vec mat norb nelec mat_alpha_beta
     occupations_a occupations_b =
     (let mat_ab = (case mat_alpha_beta of None \<Rightarrow> mat | Some m \<Rightarrow> m)
      in bind_res (contract_diag_coulomb gen_occ (snd vec) (snd mat) norb nelec
                     (map_option snd mat_alpha_beta) occupations_a occupations_b) (\<lambda>out.
           if kernel_dtypes_ok (fst vec) [fst mat, fst mat_ab] then Inr (fst vec, out)
           else Inl InvalidParameter))"

text \<open>
  \<open>scipy.sparse.linalg.LinearOperator\<close> is a library class: a shape, a dtype and the
  two callables. \<open>linop_apply\<close> is \<open>linop @ vec\<close> on a one-dimensional array: scipy
  raises ValueError unless the vector has as many entries as the operator has columns,
  calls \<open>matvec\<close>, and reshapes the result to the number of rows; it does not cast the
  result to the dtype the operator declares.
\<close>

record 'f linear_operator =
  lo_shape :: "int \<times> int"
  lo_dtype :: dtype
  lo_matvec :: 'f
  lo_rmatvec :: 'f

definition linop_apply ::
  "('a list ndarray \<Rightarrow> error + 'a list ndarray) linear_operator \<Rightarrow> 'a list ndarray \<Rightarrow>
   error + 'a list ndarray" where
  "linop_apply L x =
     (case lo_shape L of (M, N) \<Rightarrow>
        if int (length (snd x)) \<noteq> N then Inl ValueError
        else bind_res (lo_matvec L x) (\<lambda>y.
               if int (length (snd y)) = M then Inr y else Inl ValueError))"

text \<open>\<open>num_op_sum_to_linop\<close> (fci.py, lines 191-216).\<close>

definition num_op_sum_to_linop ::
  "(int \<Rightarrow> int \<Rightarrow> occupations) \<Rightarrow> ('a::field) list ndarray \<Rightarrow> int \<Rightarrow> int \<times> int \<Rightarrow>
   error + ('a list ndarray \<Rightarrow> error + 'a list ndarray) linear_operator" where
  "num_op_sum_to_linop gen_occ coeffs norb nelec =
     (case nelec of (n_alpha, n_beta) \<Rightarrow>
        bind_res (get_dimension norb nelec) (\<lambda>dim.
          (let occupations_a = gen_occ norb n_alpha;
               occupations_b = gen_occ norb n_beta;
               matvec = (\<lambda>vec. contract_num_op_sum_typed gen_occ vec coeffs norb nelec
                                  (Some occupations_a) (Some occupations_b))
           in Inr \<lparr>lo_shape = (dim, dim), lo_dtype = fst coeffs,
                    lo_matvec = matvec, lo_rmatvec = matvec\<rparr>)))"

text \<open>\<open>diag_coulomb_to_linop\<close> (fci.py, lines 262-292).\<close>

definition diag_coulomb_to_linop ::
  "(int \<Rightarrow> int \<Rightarrow> occupations) \<Rightarrow> ('a::field) array2 ndarray \<Rightarrow> int \<Rightarrow> int \<times> int \<Rightarrow>
   'a array2 ndarray option \<Rightarrow>
   error + ('a list ndarray \<Rightarrow> error + 'a list ndarray) linear_operator" where
  "diag_coulomb_to_linop gen_occ mat norb nelec mat_alpha_beta =
     (case nelec of (n_alpha, n_beta) \<Rightarrow>
        bind_res (get_dimension norb nelec) (\<lambda>dim.
          (let occupations_a = gen_occ norb n_alpha;
               occupations_b = gen_occ norb n_beta;
               matvec = (\<lambda>vec. contract_diag_coulomb_typed gen_occ vec mat norb nelec
                                  mat_alpha_beta (Some occupations_a) (Some occupations_b))
           in Inr \<lparr>lo_shape = (dim, dim), lo_dtype = fst mat,
                    lo_matvec = matvec, lo_rmatvec = matvec\<rparr>)))"

text \<open>\<open>get_hamiltonian_linop\<close> (fci.py, lines 74-93). \<open>absorb_h1e\<close> of pyscf, which folds
  the one-body tensor into the two-body tensor, is a parameter \<open>absorb\<close> of the model.\<close>

definition get_hamiltonian_linop ::
  "'a arith \<Rightarrow> (int \<Rightarrow> int \<Rightarrow> link_table) \<Rightarrow>
   ('t ndarray \<Rightarrow> 'a list ndarray \<Rightarrow> int \<Rightarrow> int \<times> int \<Rightarrow> 'a list ndarray) \<Rightarrow>
   't ndarray \<Rightarrow> 'a list ndarray \<Rightarrow> int \<Rightarrow> int \<times> int \<Rightarrow>
   error + ('a list ndarray \<Rightarrow> error + 'a list ndarray) linear_operator" where
  "get_hamiltonian_linop ar gen absorb one_body_tensor two_body_tensor norb nelec =
     (case nelec of (n_alpha, n_beta) \<Rightarrow>
        (let linkstr_index_a = gen norb n_alpha;
             linkstr_index_b = gen norb n_beta;
             link_index = (linkstr_index_a, linkstr_index_b);
             two_body = absorb one_body_tensor two_body_tensor norb nelec
         in bind_res (get_dimension norb nelec) (\<lambda>dim.
              (let matvec = (\<lambda>vec. contract_2e ar gen two_body vec norb
                                      (NelecPair n_alpha n_beta) (Some link_index))
               in Inr \<lparr>lo_shape = (dim, dim), lo_dtype = fst one_body_tensor,
                        lo_matvec = matvec, lo_rmatvec = matvec\<rparr>))))"

text \<open>
  An array is well typed when its values fit its dtype: the entries of an array of dtype
  Float64 are real. For a matrix the entries are those inside its extents.
\<close>

definition real_list :: "complex list \<Rightarrow> bool" where
  "real_list xs = list_all (\<lambda>x. Im x = 0) xs"

definition real_array2 :: "complex array2 \<Rightarrow> bool" where
  "real_array2 m =
     list_all (\<lambda>i. list_all (\<lambda>j. Im (entry m i j) = 0) [0..<ncols m]) [0..<nrows m]"

definition well_typed :: "complex list ndarray \<Rightarrow> bool" where
  "well_typed a = (fst a = Complex128 \<or> real_list (snd a))"

definition well_typed2 :: "complex array2 ndarray \<Rightarrow> bool" where
  "well_typed2 a = (fst a = Complex128 \<or> real_array2 (snd a))"

section \<open>The one-body operator\<close>

text \<open>
  \<open>contract_1e\<close> of pyscf, the real single-excitation primitive (a real tensor and a real
  vector give a real vector), is a parameter of the model. The one-body tensor and the
  CI vector hold complex values next to their dtype; an array of dtype Float64 is one
  whose entries have imaginary part 0, so that its \<open>.imag\<close> is the zero array as in
  numpy. \<open>.real\<close>, \<open>.imag\<close>, \<open>.T.conj()\<close> and \<open>astype(complex)\<close>:
\<close>

definition real_part2 :: "complex array2 \<Rightarrow> real array2" where
  "real_part2 m = \<lparr>nrows = nrows m, ncols = ncols m, entry = (\<lambda>i j. Re (entry m i j))\<rparr>"

definition imag_part2 :: "complex array2 \<Rightarrow> real array2" where
  "imag_part2 m = \<lparr>nrows = nrows m, ncols = ncols m, entry = (\<lambda>i j. Im (entry m i j))\<rparr>"

definition conj_transpose :: "complex array2 \<Rightarrow> complex array2" where
  "conj_transpose m = \<lparr>nrows = ncols m, ncols = nrows m, entry = (\<lambda>i j. cnj (entry m j i))\<rparr>"

definition astype_complex :: "real list \<Rightarrow> complex list" where
  "astype_complex xs = map complex_of_real xs"

definition times_1j :: "real list \<Rightarrow> complex list" where
  "times_1j xs = map (\<lambda>x. \<i> * complex_of_real x) xs"

text \<open>\<open>result += y\<close> and \<open>result -= y\<close> on one-dimensional arrays: \<open>y\<close> has the length
  of \<open>result\<close> or is broadcast from length 1; numpy raises ValueError otherwise.\<close>

definition iadd :: "complex list \<Rightarrow> complex list \<Rightarrow> error + complex list" where
  "iadd result y =
     (if length y = length result then Inr (map2 (+) result y)
      else if length y = 1 then Inr (map (\<lambda>x. x + hd y) result)
      else Inl ValueError)"

definition isub :: "complex list \<Rightarrow> complex list \<Rightarrow> error + complex list" where
  "isub result y =
     (if length y = length result then Inr (map2 (-) result y)
      else if length y = 1 then Inr (map (\<lambda>x. x - hd y) result)
      else Inl ValueError)"

type_synonym primitive_1e =
  "real array2 \<Rightarrow> real list \<Rightarrow> int \<Rightarrow> int \<times> int \<Rightarrow> link_table \<times> link_table \<Rightarrow> real list"

text \<open>The body shared by \<open>matvec\<close> (lines 116-129) and \<open>rmatvec\<close> (lines 133-145).\<close>

definition four_contractions ::
  "primitive_1e \<Rightarrow> complex array2 \<Rightarrow> int \<Rightarrow> int \<times> int \<Rightarrow> link_table \<times> link_table \<Rightarrow>
   complex list ndarray \<Rightarrow> error + complex list ndarray" where
  "four_contractions contract_1e tensor norb nelec link_index vec =
     (let result = astype_complex
                     (contract_1e (real_part2 tensor) (map Re (snd vec)) norb nelec link_index)
      in bind_res (iadd result
                     (times_1j (contract_1e (imag_part2 tensor) (map Re (snd vec)) norb nelec
                                  link_index))) (\<lambda>result.
         bind_res (iadd result
                     (times_1j (contract_1e (real_part2 tensor) (map Im (snd vec)) norb nelec
                                  link_index))) (\<lambda>result.
         bind_res (isub result
                     (astype_complex (contract_1e (imag_part2 tensor) (map Im (snd vec)) norb nelec
                                        link_index))) (\<lambda>result.
         Inr (Complex128, result)))))"

text \<open>\<open>one_body_tensor_to_linop\<close> (fci.py, lines 106-149).\<close>

definition one_body_tensor_to_linop ::
  "(int \<Rightarrow> int \<Rightarrow> link_table) \<Rightarrow> primitive_1e \<Rightarrow> complex array2 ndarray \<Rightarrow> int \<Rightarrow> int \<times> int \<Rightarrow>
   error + (complex list ndarray \<Rightarrow> error + complex list ndarray) linear_operator" where
  "one_body_tensor_to_linop gen contract_1e one_body_tensor norb nelec =
     bind_res (get_dimension norb nelec) (\<lambda>dim.
       (case nelec of (n_alpha, n_beta) \<Rightarrow>
          (let linkstr_index_a = gen norb n_alpha;
               linkstr_index_b = gen norb n_beta;
               link_index = (linkstr_index_a, linkstr_index_b);
               matvec = four_contractions contract_1e (snd one_body_tensor) norb nelec link_index;
               rmatvec = four_contractions contract_1e (conj_transpose (snd one_body_tensor))
                           norb nelec link_index
           in Inr \<lparr>lo_shape = (dim, dim), lo_dtype = Complex128,
                    lo_matvec = matvec, lo_rmatvec = rmatvec\<rparr>)))"

text \<open>
  The recombination of section 4.3 of the spec, entry by entry, for a real primitive
  \<open>f\<close>: f(Re M, Re v) + i f(Im M, Re v) + i f(Re M, Im v) - f(Im M, Im v).
\<close>

definition four_term :: "(real array2 \<Rightarrow> real list \<Rightarrow> real list) \<Rightarrow> complex array2 \<Rightarrow> complex list \<Rightarrow> complex list" where
  "four_term f m v =
     map (\<lambda>k. complex_of_real (f (real_part2 m) (map Re v) ! k)
               + \<i> * complex_of_real (f (imag_part2 m) (map Re v) ! k)
               + \<i> * complex_of_real (f (real_part2 m) (map Im v) ! k)
               - complex_of_real (f (imag_part2 m) (map Im v) ! k)) [0..<length v]"

text \<open>Sums and multiples of arrays, for stating that a complex operator is linear in
  the matrix and in the vector.\<close>

definition complex_array2 :: "real array2 \<Rightarrow> complex array2" where
  "complex_array2 m = \<lparr>nrows = nrows m, ncols = ncols m, entry = (\<lambda>i j. complex_of_real (entry m i j))\<rparr>"

definition add_array2 :: "complex array2 \<Rightarrow> complex array2 \<Rightarrow> complex array2" where
  "add_array2 a b = \<lparr>nrows = nrows a, ncols = ncols a, entry = (\<lambda>i j. entry a i j + entry b i j)\<rparr>"

definition scale_array2 :: "complex \<Rightarrow> complex array2 \<Rightarrow> complex array2" where
  "scale_array2 c a = \<lparr>nrows = nrows a, ncols = ncols a, entry = (\<lambda>i j. c * entry a i j)\<rparr>"

section \<open>The diagonal Coulomb operator on a store\<close>

text \<open>
  What a call does to the arrays of its caller. A store holds the buffers that exist,
  one-dimensional ones and two-dimensional ones; an array argument is a reference, the
  index of its buffer. \<open>copy\<close> and \<open>zeros_like\<close> allocate a buffer at the end of the
  store, \<open>reshape\<close> makes a view of the buffer it is given, an in-place operator
  overwrites a buffer. A reference to no buffer does not occur in Python; the model
  answers it with InvalidParameter.
\<close>

record 'a store =
  vectors :: "'a list list"
  matrices :: "'a array2 list"

text \<open>
  Modelled from the spec: the compiled kernel \<open>contract_diag_coulomb_into_buffer\<close> of
  \<open>ffsim._ffsim\<close> is not among the sources. Section 9 of the spec: the kernel is a
  function over arrays with an explicit output buffer; section 5: the operator tensors
  and occupation lists are read-only inputs for the duration of a call; section 7: a
  failing call leaves the buffers untouched. So the kernel reads the view of the vector
  and the two matrices and overwrites the buffer \<open>out\<close>, and nothing else.
\<close>

definition contract_diag_coulomb_into_buffer_mem ::
  "nat \<times> nat \<times> nat \<Rightarrow> nat \<Rightarrow> int \<Rightarrow> nat \<Rightarrow> occupations \<Rightarrow> occupations \<Rightarrow> nat \<Rightarrow>
   ('a::field) store \<Rightarrow> (error + unit) \<times> 'a store" where
  "contract_diag_coulomb_into_buffer_mem vec_view mat norb mat_alpha_beta occupations_a
     occupations_b out s =
     (case vec_view of (vec, r, c) \<Rightarrow>
        if vec < length (vectors s) \<and> mat < length (matrices s) \<and>
           mat_alpha_beta < length (matrices s) \<and> out < length (matrices s)
        then (case reshape_2d r c (vectors s ! vec) of
                Inl e \<Rightarrow> (Inl e, s)
              | Inr vec2 \<Rightarrow>
                 (case contract_diag_coulomb_into_buffer vec2 (matrices s ! mat) norb
                         (matrices s ! mat_alpha_beta) occupations_a occupations_b
                         (matrices s ! out) of
                    Inl e \<Rightarrow> (Inl e, s)
                  | Inr buf \<Rightarrow> (Inr (), s\<lparr>matrices := (matrices s)[out := buf]\<rparr>)))
        else (Inl InvalidParameter, s))"

text \<open>\<open>contract_diag_coulomb\<close> (fci.py, lines 219-259) on the store: the reference it
  returns (the buffer of \<open>out\<close>, of which \<open>out.reshape(-1)\<close> is a view) or the error it
  raises, and the store it leaves.\<close>

definition contract_diag_coulomb_mem ::
  "(int \<Rightarrow> int \<Rightarrow> occupations) \<Rightarrow> nat \<Rightarrow> nat \<Rightarrow> int \<Rightarrow> int \<times> int \<Rightarrow> nat option \<Rightarrow>
   occupations option \<Rightarrow> occupations option \<Rightarrow> ('a::field) store \<Rightarrow> (error + nat) \<times> 'a store" where
  "contract_diag_coulomb_mem gen_occ vec mat norb nelec mat_alpha_beta occupations_a
     occupations_b s =
     (let mat_ab = (case mat_alpha_beta of None \<Rightarrow> mat | Some r \<Rightarrow> r)
      in case nelec of (n_alpha, n_beta) \<Rightarrow>
        (let dim_a = comb norb n_alpha;
             dim_b = comb norb n_beta;
             occ_a = resolve_occupations gen_occ norb n_alpha occupations_a;
             occ_b = resolve_occupations gen_occ norb n_beta occupations_b
         in if \<not> (vec < length (vectors s) \<and> mat < length (matrices s))
            then (Inl InvalidParameter, s)
            else
              (let mat_copy = length (matrices s);
                   s1 = s\<lparr>matrices := matrices s @ [matrices s ! mat]\<rparr>
               in case halve_diagonal norb (matrices s1 ! mat_copy) of
                    Inl e \<Rightarrow> (Inl e, s1)
                  | Inr mat_h \<Rightarrow>
                     (let s2 = s1\<lparr>matrices := (matrices s1)[mat_copy := mat_h]\<rparr>
                      in case reshape_2d (nat dim_a) (nat dim_b) (vectors s2 ! vec) of
                           Inl e \<Rightarrow> (Inl e, s2)
                         | Inr vec2 \<Rightarrow>
                            (let out = length (matrices s2);
                                 s3 = s2\<lparr>matrices := matrices s2 @ [zeros_like vec2]\<rparr>
                             in case contract_diag_coulomb_into_buffer_mem
                                       (vec, nat dim_a, nat dim_b) mat_copy norb mat_ab
                                       occ_a occ_b out s3 of
                                  (Inl e, s4) \<Rightarrow> (Inl e, s4)
                                | (Inr u, s4) \<Rightarrow> (Inr out, s4))))))"

section \<open>Properties of the dimension\<close>

lemma comb_in_range:
  "0 \<le> k \<Longrightarrow> k \<le> N \<Longrightarrow> comb N k = int (nat N choose nat k)"
  by (simp add: comb_def)

lemma comb_out_of_range:
  "k < 0 \<or> N < k \<Longrightarrow> comb N k = 0"
  by (auto simp add: comb_def)

lemma comb_nonneg: "0 \<le> comb N k"
  by (simp add: comb_def)

text \<open>
  Claim C5. For every norb and nelec = (n_alpha, n_beta) with 0 \<le> n_alpha \<le> norb and
  0 \<le> n_beta \<le> norb, \<open>get_dimension\<close> returns exactly the product of the binomial
  coefficients C(norb, n_alpha) and C(norb, n_beta), as an integer.
\<close>

theorem get_dimension_binomial_product:
  assumes "0 \<le> n_alpha" and "n_alpha \<le> norb" and "0 \<le> n_beta" and "n_beta \<le> norb"
  shows "get_dimension norb (n_alpha, n_beta) =
           Inr (int (nat norb choose nat n_alpha) * int (nat norb choose nat n_beta))"
  using assms by (simp add: get_dimension_def comb_in_range)

theorem get_dimension_binomial_product_witness:
  "(0::int) \<le> 2 \<and> (2::int) \<le> 4 \<and> (0::int) \<le> 1 \<and> (1::int) \<le> 4 \<and>
   get_dimension 4 (2, 1) = Inr 24"
proof -
  have b: "(4::nat) choose 2 = 6"
    by (simp add: binomial_Suc_Suc numeral_eq_Suc)
  have "get_dimension 4 (2, 1) = Inr (int (nat 4 choose nat 2) * int (nat 4 choose nat 1))"
    using get_dimension_binomial_product [of 2 4 1] by simp
  then show ?thesis using b by simp
qed

text \<open>
  Claim C6, as stated: whenever a sector particle count is negative or exceeds norb,
  \<open>get_dimension\<close> reports an InvalidParameter error instead of returning a number.
  The code has no such check: with norb = 2 and nelec = (3, 1) it returns the number 0.
\<close>

theorem get_dimension_no_error_counterexample:
  "(3::int) > 2 \<and> get_dimension 2 (3, 1) = Inr 0 \<and>
   get_dimension 2 (3, 1) \<noteq> Inl InvalidParameter"
  by (simp add: get_dimension_def comb_def)

text \<open>
  Claim C6, amended: \<open>get_dimension\<close> validates nothing. When a sector particle count is
  negative or exceeds norb, the call returns the number 0 (the binomial coefficient of
  that sector is taken to be 0), and no error is reported.
\<close>

theorem get_dimension_out_of_range_zero:
  assumes "n_alpha < 0 \<or> norb < n_alpha \<or> n_beta < 0 \<or> norb < n_beta"
  shows "get_dimension norb (n_alpha, n_beta) = Inr 0"
proof -
  have "comb norb n_alpha = 0 \<or> comb norb n_beta = 0"
    using assms comb_out_of_range by blast
  then show ?thesis by (auto simp add: get_dimension_def)
qed

theorem get_dimension_out_of_range_zero_witness:
  "((-1::int) < 0 \<or> (3::int) < -1 \<or> (1::int) < 0 \<or> (3::int) < 1) \<and>
   get_dimension 3 (-1, 1) = Inr 0"
  using get_dimension_out_of_range_zero [of "-1" 3 1] by simp

section \<open>Properties of the two-body contraction\<close>

lemma bind_res_Inr [simp]: "bind_res (Inr x) f = f x"
  by (simp add: bind_res_def)

lemma bind_res_Inl [simp]: "bind_res (Inl e) f = Inl e"
  by (simp add: bind_res_def)

lemma fold_res_invariant:
  assumes "P s"
    and "\<And>x t. x \<in> set xs \<Longrightarrow> P t \<Longrightarrow> \<exists>t'. f x t = Inr t' \<and> P t'"
  shows "\<exists>s'. fold_res f xs s = Inr s' \<and> P s'"
  using assms
proof (induction xs arbitrary: s)
  case Nil
  then show ?case by simp
next
  case (Cons x xs)
  from Cons.prems obtain t where t: "f x s = Inr t" "P t" by fastforce
  have "\<exists>s'. fold_res f xs t = Inr s' \<and> P s'"
    by (rule Cons.IH [OF t(2)]) (simp add: Cons.prems(2))
  then show ?case using t by simp
qed

lemma link_loop_invariant:
  assumes "P s"
    and "\<And>str0 tab e t. str0 < length li \<Longrightarrow> tab \<in> set li \<Longrightarrow> e \<in> set tab \<Longrightarrow> P t \<Longrightarrow>
           \<exists>t'. step str0 e t = Inr t' \<and> P t'"
  shows "\<exists>s'. link_loop step li s = Inr s' \<and> P s'"
  unfolding link_loop_def
proof (rule fold_res_invariant [where P = P, OF assms(1)])
  fix x t
  assume x: "x \<in> set (enumerate 0 li)" and t: "P t"
  obtain str0 tab where xe: "x = (str0, tab)" by (cases x)
  from x xe have k: "str0 < length li" and m: "tab \<in> set li"
    by (auto simp add: in_set_enumerate_eq)
  have "\<exists>t'. fold_res (step str0) tab t = Inr t' \<and> P t'"
    by (rule fold_res_invariant [where P = P, OF t]) (rule assms(2) [OF k m])
  then show "\<exists>t'. (case x of (str0, tab) \<Rightarrow> fold_res (step str0) tab) t = Inr t' \<and> P t'"
    by (simp add: xe)
qed

lemma py_index_lt: "py_index n k = Some j \<Longrightarrow> j < n"
  by (auto simp add: py_index_def split: if_splits)

lemma link_index_okD:
  "link_index_ok norb n li \<Longrightarrow> str0 < length li \<Longrightarrow> tab \<in> set li \<Longrightarrow> e \<in> set tab \<Longrightarrow>
   entry_ok norb n e \<and> str0 < n"
  by (auto simp add: link_index_ok_def list_all_iff)

lemma index_step_lt: "x < m \<Longrightarrow> j < (n::nat) \<Longrightarrow> x * n + j < m * n"
proof -
  assume x: "x < m" and j: "j < n"
  have "x * n + j < Suc x * n" using j by simp
  also have "Suc x * n \<le> m * n" using x by (intro mult_le_mono1) simp
  finally show ?thesis .
qed

lemma index4_lt:
  assumes "b < n" "j < n" "a < n" "i < (n::nat)"
  shows "((b * n + j) * n + a) * n + i < n ^ 4"
proof -
  have "b * n + j < n * n" using assms by (simp add: index_step_lt)
  then have "(b * n + j) * n + a < n * n * n" using assms by (simp add: index_step_lt)
  then have "((b * n + j) * n + a) * n + i < n * n * n * n" using assms by (simp add: index_step_lt)
  then show ?thesis by (simp add: power4_eq_xxxx)
qed

lemma t1_add_a_ok:
  "entry_ok norb na e \<Longrightarrow> str0 < na \<Longrightarrow> \<exists>t'. t1_add_a ar norb na ci0 str0 e t = Inr t'"
  by (cases e) (auto simp add: entry_ok_def t1_add_a_def)

lemma t1_add_b_ok:
  "entry_ok norb nb e \<Longrightarrow> str0 < nb \<Longrightarrow> \<exists>t'. t1_add_b ar norb nb ci0 str0 e t = Inr t'"
  by (cases e) (auto simp add: entry_ok_def t1_add_b_def)

lemma excitation_tensor_ok:
  assumes "link_index_ok n na lia" and "link_index_ok n nb lib"
  shows "\<exists>t1. excitation_tensor ar n na nb ci0 lia lib = Inr t1"
proof -
  obtain t1a where a: "link_loop (t1_add_a ar n na ci0) lia (\<lambda>p q A B. ar_zero ar) = Inr t1a"
    using link_loop_invariant [where P = "\<lambda>_. True" and step = "t1_add_a ar n na ci0" and li = lia]
      link_index_okD [OF assms(1)] t1_add_a_ok by (metis (no_types, lifting))
  obtain t1b where b: "link_loop (t1_add_b ar n nb ci0) lib t1a = Inr t1b"
    using link_loop_invariant [where P = "\<lambda>_. True" and step = "t1_add_b ar n nb ci0" and li = lib]
      link_index_okD [OF assms(2)] t1_add_b_ok by (metis (no_types, lifting))
  show ?thesis by (simp add: excitation_tensor_def a b)
qed

lemma ar_sum_zero:
  assumes "is_zero (ar_zero ar)"
    and "\<And>x y. is_zero x \<Longrightarrow> is_zero y \<Longrightarrow> is_zero (ar_add ar x y)"
    and "\<And>x. x \<in> set xs \<Longrightarrow> is_zero (f x)"
  shows "is_zero (ar_sum ar (map f xs))"
  using assms(3) unfolding ar_sum_def
  by (induction xs) (simp_all add: assms(1,2))

lemma einsum_zero:
  assumes z0: "is_zero (ar_zero ar)"
    and zm: "\<And>x y. is_zero x \<Longrightarrow> fin y \<Longrightarrow> is_zero (ar_mul ar x y)"
    and za: "\<And>x y. is_zero x \<Longrightarrow> is_zero y \<Longrightarrow> is_zero (ar_add ar x y)"
    and len: "length eri = n ^ 4" and zeros: "list_all is_zero eri"
    and fin: "\<And>a i. a < n \<Longrightarrow> i < n \<Longrightarrow> fin (t a i A B)"
    and b: "b < n" and j: "j < n"
  shows "is_zero (einsum_bjai_aiAB ar n (reshape4 n eri) t b j A B)"
proof -
  have e: "is_zero (reshape4 n eri b j a i)" if "a < n" "i < n" for a i
    using zeros len b j that by (simp add: reshape4_def index4_lt list_all_length)
  have inner: "is_zero (ar_sum ar (map (\<lambda>i. ar_mul ar (reshape4 n eri b j a i) (t a i A B)) [0..<n]))"
    if "a < n" for a
    by (rule ar_sum_zero [where is_zero = is_zero, OF z0 za]) (auto intro!: zm e fin that)
  show ?thesis
    unfolding einsum_bjai_aiAB_def
    by (rule ar_sum_zero [where is_zero = is_zero, OF z0 za]) (auto intro!: inner)
qed

lemma fcinew_add_a_zero:
  assumes zs: "\<And>k y. is_zero y \<Longrightarrow> is_zero (ar_mul ar (ar_of_int ar k) y)"
    and za: "\<And>x y. is_zero x \<Longrightarrow> is_zero y \<Longrightarrow> is_zero (ar_add ar x y)"
    and ok: "entry_ok norb na e" and s: "str0 < na"
    and t: "\<And>p q A B. p < norb \<Longrightarrow> q < norb \<Longrightarrow> A < na \<Longrightarrow> B < nb \<Longrightarrow> is_zero (t1 p q A B)"
    and f: "\<forall>A<na. \<forall>B<nb. is_zero (f A B)"
  shows "\<exists>f'. fcinew_add_a ar True norb na t1 str0 e f = Inr f' \<and> (\<forall>A<na. \<forall>B<nb. is_zero (f' A B))"
proof -
  obtain a i str1 sign where e: "e = (a, i, str1, sign)" by (cases e)
  from ok e obtain a' i' s' where
    ix: "py_index norb a = Some a'" "py_index norb i = Some i'" "py_index na str1 = Some s'"
    by (auto simp add: entry_ok_def)
  have "is_zero (t1 a' i' str0 B)" if "B < nb" for B
    using t ix py_index_lt s that by blast
  then show ?thesis
    using ix s f by (simp add: fcinew_add_a_def e zs za)
qed

lemma fcinew_add_b_zero:
  assumes zs: "\<And>k y. is_zero y \<Longrightarrow> is_zero (ar_mul ar (ar_of_int ar k) y)"
    and za: "\<And>x y. is_zero x \<Longrightarrow> is_zero y \<Longrightarrow> is_zero (ar_add ar x y)"
    and ok: "entry_ok norb nb e" and s: "str0 < nb"
    and t: "\<And>p q A B. p < norb \<Longrightarrow> q < norb \<Longrightarrow> A < na \<Longrightarrow> B < nb \<Longrightarrow> is_zero (t1 p q A B)"
    and f: "\<forall>A<na. \<forall>B<nb. is_zero (f A B)"
  shows "\<exists>f'. fcinew_add_b ar True norb nb t1 str0 e f = Inr f' \<and> (\<forall>A<na. \<forall>B<nb. is_zero (f' A B))"
proof -
  obtain a i str1 sign where e: "e = (a, i, str1, sign)" by (cases e)
  from ok e obtain a' i' s' where
    ix: "py_index norb a = Some a'" "py_index norb i = Some i'" "py_index nb str1 = Some s'"
    by (auto simp add: entry_ok_def)
  have "is_zero (t1 a' i' A str0)" if "A < na" for A
    using t ix py_index_lt s that by blast
  then show ?thesis
    using ix s f by (simp add: fcinew_add_b_def e zs za)
qed

lemma flatten2_all:
  assumes "\<forall>A<na. \<forall>B<nb. P (f A B)"
  shows "list_all P (flatten2 na nb f)"
proof -
  have "P (f (k div nb) (k mod nb))" if "k < na * nb" for k
  proof -
    from that have "0 < nb" by (cases nb) simp_all
    then have "k mod nb < nb" by simp
    moreover have "k div nb < na" using that by (simp add: less_mult_imp_div_less)
    ultimately show ?thesis using assms by blast
  qed
  then show ?thesis by (simp add: flatten2_def list_all_iff)
qed

lemma bind_res_eq_Inr: "bind_res m f = Inr y \<longleftrightarrow> (\<exists>x. m = Inr x \<and> f x = Inr y)"
  by (cases m) simp_all

lemma fold_res_preserves:
  assumes "fold_res f xs s = Inr s'" and "P s"
    and "\<And>x t t'. x \<in> set xs \<Longrightarrow> P t \<Longrightarrow> f x t = Inr t' \<Longrightarrow> P t'"
  shows "P s'"
  using assms
proof (induction xs arbitrary: s)
  case Nil
  then show ?case by simp
next
  case (Cons x xs)
  from Cons.prems(1) obtain t where t: "f x s = Inr t" and r: "fold_res f xs t = Inr s'"
    by (auto simp add: bind_res_eq_Inr)
  have "P t" using Cons.prems(3) [of x s t] Cons.prems(2) t by simp
  then show ?case
    by (rule Cons.IH [OF r]) (rule Cons.prems(3), simp_all)
qed

lemma link_loop_preserves:
  assumes "link_loop step li s = Inr s'" and "P s"
    and "\<And>str0 e t t'. P t \<Longrightarrow> step str0 e t = Inr t' \<Longrightarrow> P t'"
  shows "P s'"
  using assms(1) unfolding link_loop_def
proof (rule fold_res_preserves [where P = P])
  show "P s" by (rule assms(2))
next
  fix x t t'
  assume t: "P t" and r: "(case x of (str0, tab) \<Rightarrow> fold_res (step str0) tab) t = Inr t'"
  obtain str0 tab where x: "x = (str0, tab)" by (cases x)
  from r have "fold_res (step str0) tab t = Inr t'" by (simp add: x)
  then show "P t'"
    by (rule fold_res_preserves [where P = P]) (use t assms(3) in auto)
qed

lemma t1_add_a_preserves:
  assumes m: "\<And>x y. P x \<Longrightarrow> P y \<Longrightarrow> P (ar_mul ar x y)"
    and a: "\<And>x y. P x \<Longrightarrow> P y \<Longrightarrow> P (ar_add ar x y)"
    and k: "\<And>k. P (ar_of_int ar k)"
    and c: "\<And>A B. A < na \<Longrightarrow> B < nb \<Longrightarrow> P (ci0 A B)"
    and t: "\<forall>p<n. \<forall>q<n. \<forall>A<na. \<forall>B<nb. P (t p q A B)"
    and r: "t1_add_a ar n na ci0 str0 e t = Inr t'"
  shows "\<forall>p<n. \<forall>q<n. \<forall>A<na. \<forall>B<nb. P (t' p q A B)"
proof -
  obtain a' i' str1 sign where e: "e = (a', i', str1, sign)" by (cases e)
  show ?thesis
    using r t by (auto simp add: t1_add_a_def e m a k c split: option.splits if_splits)
qed

lemma t1_add_b_preserves:
  assumes m: "\<And>x y. P x \<Longrightarrow> P y \<Longrightarrow> P (ar_mul ar x y)"
    and a: "\<And>x y. P x \<Longrightarrow> P y \<Longrightarrow> P (ar_add ar x y)"
    and k: "\<And>k. P (ar_of_int ar k)"
    and c: "\<And>A B. A < na \<Longrightarrow> B < nb \<Longrightarrow> P (ci0 A B)"
    and t: "\<forall>p<n. \<forall>q<n. \<forall>A<na. \<forall>B<nb. P (t p q A B)"
    and r: "t1_add_b ar n nb ci0 str0 e t = Inr t'"
  shows "\<forall>p<n. \<forall>q<n. \<forall>A<na. \<forall>B<nb. P (t' p q A B)"
proof -
  obtain a' i' str1 sign where e: "e = (a', i', str1, sign)" by (cases e)
  show ?thesis
    using r t by (auto simp add: t1_add_b_def e m a k c split: option.splits if_splits)
qed

lemma fcinew_add_a_preserves:
  assumes m: "\<And>x y. P x \<Longrightarrow> P y \<Longrightarrow> P (ar_mul ar x y)"
    and a: "\<And>x y. P x \<Longrightarrow> P y \<Longrightarrow> P (ar_add ar x y)"
    and k: "\<And>k. P (ar_of_int ar k)"
    and t: "\<And>p q A B. cast_ok \<Longrightarrow> p < n \<Longrightarrow> q < n \<Longrightarrow> A < na \<Longrightarrow> B < nb \<Longrightarrow>
              P (t1 p q A B)"
    and f: "\<forall>A<na. \<forall>B<nb. P (f A B)"
    and r: "fcinew_add_a ar cast_ok n na t1 str0 e f = Inr f'"
  shows "\<forall>A<na. \<forall>B<nb. P (f' A B)"
proof -
  obtain a' i' str1 sign where e: "e = (a', i', str1, sign)" by (cases e)
  show ?thesis
    using r f
    by (auto simp add: fcinew_add_a_def e m a k t py_index_lt split: option.splits if_splits)
qed

lemma fcinew_add_b_preserves:
  assumes m: "\<And>x y. P x \<Longrightarrow> P y \<Longrightarrow> P (ar_mul ar x y)"
    and a: "\<And>x y. P x \<Longrightarrow> P y \<Longrightarrow> P (ar_add ar x y)"
    and k: "\<And>k. P (ar_of_int ar k)"
    and t: "\<And>p q A B. cast_ok \<Longrightarrow> p < n \<Longrightarrow> q < n \<Longrightarrow> A < na \<Longrightarrow> B < nb \<Longrightarrow>
              P (t1 p q A B)"
    and f: "\<forall>A<na. \<forall>B<nb. P (f A B)"
    and r: "fcinew_add_b ar cast_ok n nb t1 str0 e f = Inr f'"
  shows "\<forall>A<na. \<forall>B<nb. P (f' A B)"
proof -
  obtain a' i' str1 sign where e: "e = (a', i', str1, sign)" by (cases e)
  show ?thesis
    using r f
    by (auto simp add: fcinew_add_b_def e m a k t py_index_lt split: option.splits if_splits)
qed

lemma contract_2e_closed:
  assumes r: "contract_2e ar gen eri fcivec norb nelec link_index = Inr y"
    and z: "P (ar_zero ar)"
    and m: "\<And>x y. P x \<Longrightarrow> P y \<Longrightarrow> P (ar_mul ar x y)"
    and a: "\<And>x y. P x \<Longrightarrow> P y \<Longrightarrow> P (ar_add ar x y)"
    and k: "\<And>k. P (ar_of_int ar k)"
    and e: "can_cast (result_type (fst eri) (fst fcivec)) (fst fcivec) \<Longrightarrow> list_all P (snd eri)"
    and v: "list_all P (snd fcivec)"
  shows "fst y = fst fcivec \<and> list_all P (snd y)"
proof -
  obtain neleca nelecb where un: "unpack_nelec nelec = (neleca, nelecb)"
    by (cases "unpack_nelec nelec")
  obtain lia lib where li: "resolve_link_index gen norb neleca nelecb link_index = (lia, lib)"
    by (cases "resolve_link_index gen norb neleca nelecb link_index")
  define n where "n = nat norb"
  define na where "na = nat (num_strings norb neleca)"
  define nb where "nb = nat (num_strings norb nelecb)"
  define ci0 where "ci0 = reshape2 nb (snd fcivec)"
  define cast_ok where "cast_ok = can_cast (result_type (fst eri) (fst fcivec)) (fst fcivec)"
  from r have r': "(if length (snd fcivec) \<noteq> na * nb \<or> norb < 0 then Inl ValueError
           else bind_res (excitation_tensor ar n na nb ci0 lia lib) (\<lambda>t1.
                 if length (snd eri) \<noteq> n ^ 4 then Inl ValueError
                 else bind_res (link_loop (fcinew_add_a ar cast_ok n na
                                   (einsum_bjai_aiAB ar n (reshape4 n (snd eri)) t1)) lia
                                   (\<lambda>A B. ar_zero ar)) (\<lambda>fcinew.
                       bind_res (link_loop (fcinew_add_b ar cast_ok n nb
                                   (einsum_bjai_aiAB ar n (reshape4 n (snd eri)) t1)) lib fcinew)
                         (\<lambda>fcinew. Inr (fst fcivec, flatten2 na nb fcinew))))) = Inr y"
    unfolding contract_2e_def un li prod.case Let_def n_def na_def nb_def ci0_def cast_ok_def .
  then have len: "length (snd fcivec) = na * nb"
    by (simp split: if_splits)
  from r' len obtain t1 where t1: "excitation_tensor ar n na nb ci0 lia lib = Inr t1"
    and el: "length (snd eri) = n ^ 4"
    and r2: "bind_res (link_loop (fcinew_add_a ar cast_ok n na
                                   (einsum_bjai_aiAB ar n (reshape4 n (snd eri)) t1)) lia
                                   (\<lambda>A B. ar_zero ar)) (\<lambda>fcinew.
                       bind_res (link_loop (fcinew_add_b ar cast_ok n nb
                                   (einsum_bjai_aiAB ar n (reshape4 n (snd eri)) t1)) lib fcinew)
                         (\<lambda>fcinew. Inr (fst fcivec, flatten2 na nb fcinew))) = Inr y"
    by (auto simp add: bind_res_eq_Inr split: if_splits)
  define t2 where "t2 = einsum_bjai_aiAB ar n (reshape4 n (snd eri)) t1"
  from r2 obtain fa fb where fa: "link_loop (fcinew_add_a ar cast_ok n na t2) lia (\<lambda>A B. ar_zero ar) = Inr fa"
    and fb: "link_loop (fcinew_add_b ar cast_ok n nb t2) lib fa = Inr fb"
    and y: "y = (fst fcivec, flatten2 na nb fb)"
    by (auto simp add: bind_res_eq_Inr t2_def)
  have c: "P (ci0 A B)" if "A < na" "B < nb" for A B
    using v len that by (simp add: ci0_def reshape2_def list_all_length index_step_lt)
  let ?Q = "\<lambda>t. \<forall>p<n. \<forall>q<n. \<forall>A<na. \<forall>B<nb. P (t p q A B)"
  from t1 obtain t1a where ta: "link_loop (t1_add_a ar n na ci0) lia (\<lambda>p q A B. ar_zero ar) = Inr t1a"
    and tb: "link_loop (t1_add_b ar n nb ci0) lib t1a = Inr t1"
    by (auto simp add: excitation_tensor_def bind_res_eq_Inr)
  have "?Q t1a"
    using ta
  proof (rule link_loop_preserves [where P = ?Q])
    show "?Q (\<lambda>p q A B. ar_zero ar)" by (simp add: z)
  next
    fix str0 e t t'
    assume "?Q t" "t1_add_a ar n na ci0 str0 e t = Inr t'"
    then show "?Q t'"
      by (rule t1_add_a_preserves [where P = P and ar = ar and na = na and nb = nb and n = n
            and ?ci0.0 = ci0, rotated 4]) (auto intro: m a k c)
  qed
  have Q1: "?Q t1"
    using tb
  proof (rule link_loop_preserves [where P = ?Q])
    show "?Q t1a" by (rule \<open>?Q t1a\<close>)
  next
    fix str0 e t t'
    assume "?Q t" "t1_add_b ar n nb ci0 str0 e t = Inr t'"
    then show "?Q t'"
      by (rule t1_add_b_preserves [where P = P and ar = ar and na = na and nb = nb and n = n
            and ?ci0.0 = ci0, rotated 4]) (auto intro: m a k c)
  qed
  have Q2: "P (t2 p q A B)" if "cast_ok" "p < n" "q < n" "A < na" "B < nb" for p q A B
  proof -
    have e': "list_all P (snd eri)"
      using that(1) e by (simp add: cast_ok_def)
    show ?thesis
      unfolding t2_def
      by (rule einsum_zero [where is_zero = P and fin = P, OF z m a el e' _ that(2,3)])
        (use Q1 that in auto)
  qed
  let ?R = "\<lambda>f. \<forall>A<na. \<forall>B<nb. P (f A B)"
  have "?R fa"
    using fa
  proof (rule link_loop_preserves [where P = ?R])
    show "?R (\<lambda>A B. ar_zero ar)" by (simp add: z)
  next
    fix str0 e t t'
    assume "?R t" "fcinew_add_a ar cast_ok n na t2 str0 e t = Inr t'"
    then show "?R t'"
      by (rule fcinew_add_a_preserves [where P = P and ar = ar and na = na and nb = nb and n = n
            and ?t1.0 = t2 and cast_ok = cast_ok, rotated 4]) (auto intro: m a k Q2)
  qed
  have "?R fb"
    using fb
  proof (rule link_loop_preserves [where P = ?R])
    show "?R fa" by (rule \<open>?R fa\<close>)
  next
    fix str0 e t t'
    assume "?R t" "fcinew_add_b ar cast_ok n nb t2 str0 e t = Inr t'"
    then show "?R t'"
      by (rule fcinew_add_b_preserves [where P = P and ar = ar and na = na and nb = nb and n = n
            and ?t1.0 = t2 and cast_ok = cast_ok, rotated 4]) (auto intro: m a k Q2)
  qed
  then have "list_all P (flatten2 na nb fb)"
    by (rule flatten2_all [where P = P and f = fb])
  then show ?thesis by (simp add: y)
qed

text \<open>
  Claim C4. When \<open>contract_2e\<close> receives the particle count as one total integer n, it
  splits it as n_beta = floor(n / 2) and n_alpha = n - n_beta, and the computation is the
  one of the pair (n - floor(n / 2), floor(n / 2)). This holds for every integer n, in
  particular for every non-negative one, and for every arithmetic of the entries.
\<close>

theorem contract_2e_total_split:
  "unpack_nelec (NelecTotal n) = (n - n div 2, n div 2) \<and>
   n div 2 = \<lfloor>real_of_int n / 2\<rfloor> \<and>
   contract_2e ar gen eri fcivec norb (NelecTotal n) link_index =
   contract_2e ar gen eri fcivec norb (NelecPair (n - n div 2) (n div 2)) link_index"
proof -
  have u: "unpack_nelec (NelecTotal n) = unpack_nelec (NelecPair (n - n div 2) (n div 2))"
    by (simp add: unpack_nelec_def Let_def)
  have f: "n div 2 = \<lfloor>real_of_int n / 2\<rfloor>"
    using floor_divide_of_int_eq [of n 2, where ?'a = real] by simp
  show ?thesis
    using f by (simp add: contract_2e_def u) (simp add: unpack_nelec_def Let_def)
qed

theorem contract_2e_total_split_witness:
  "unpack_nelec (NelecTotal 3) = (2, 1) \<and>
   contract_2e exact_arith (\<lambda>n k. []) (Float64, [5]) (Float64, [7 :: int]) 1 (NelecTotal 3) None =
   contract_2e exact_arith (\<lambda>n k. []) (Float64, [5]) (Float64, [7 :: int]) 1 (NelecPair 2 1) None"
  using contract_2e_total_split [of 3 exact_arith "\<lambda>n k. []" "(Float64, [5])" "(Float64, [7 :: int])" 1 None]
  by simp

text \<open>
  Claim C9, as stated: for every norb, every nelec, every link index and every CI vector
  of the correct length, \<open>contract_2e\<close> with a two-body tensor of all zeros returns the
  zero vector. Four inputs on which it does not. A link index with the entry
  \<open>(5, 0, 0, 1)\<close> for one orbital: the index 5 is outside \<open>t1\<close> and line 49 raises
  IndexError. The vector \<open>[1e308]\<close> in float64: lines 49 and 52 add it to itself,
  which overflows to infinity, line 54 multiplies the zero of the tensor by infinity,
  which is NaN, and the result is \<open>[NaN]\<close>. A complex tensor of zeros with a real
  vector: the product of line 54 is complex, and the in-place add of line 59 into the
  real \<open>fcinew\<close> raises TypeError. A negative norb, with the empty vector and the empty
  tensor: \<open>np.zeros\<close> of line 46 raises ValueError.
\<close>

theorem contract_2e_zero_tensor_counterexample:
  "contract_2e float64_arith (\<lambda>n k. []) (Float64, [Fin 0]) (Float64, [Fin 1]) 1 (NelecPair 1 1)
     (Some ([[(5, 0, 0, 1)]], [[(0, 0, 0, 1)]])) = Inl IndexError \<and>
   contract_2e float64_arith (\<lambda>n k. []) (Float64, [Fin 0]) (Float64, [Fin (10 ^ 308)]) 1
     (NelecPair 1 1) (Some ([[(0, 0, 0, 1)]], [[(0, 0, 0, 1)]])) = Inr (Float64, [NaN]) \<and>
   contract_2e exact_arith (\<lambda>n k. []) (Complex128, [0]) (Float64, [1 :: complex]) 1
     (NelecPair 1 1) (Some ([[(0, 0, 0, 1)]], [[(0, 0, 0, 1)]])) = Inl TypeError \<and>
   contract_2e float64_arith (\<lambda>n k. []) (Float64, []) (Float64, []) (- 1) (NelecPair 0 0)
     (Some ([], [])) = Inl ValueError"
proof -
  have ns: "num_strings 1 1 = 1"
    by (simp add: num_strings_def)
  have a: "contract_2e float64_arith (\<lambda>n k. []) (Float64, [Fin 0]) (Float64, [Fin 1]) 1
     (NelecPair 1 1) (Some ([[(5, 0, 0, 1)]], [[(0, 0, 0, 1)]])) = Inl IndexError"
    by (simp add: contract_2e_def unpack_nelec_def resolve_link_index_def ns
        excitation_tensor_def link_loop_def t1_add_a_def py_index_def)
  have b: "contract_2e float64_arith (\<lambda>n k. []) (Float64, [Fin 0]) (Float64, [Fin (10 ^ 308)]) 1
     (NelecPair 1 1) (Some ([[(0, 0, 0, 1)]], [[(0, 0, 0, 1)]])) = Inr (Float64, [NaN])"
    by (simp add: contract_2e_def unpack_nelec_def resolve_link_index_def ns
        excitation_tensor_def link_loop_def t1_add_a_def t1_add_b_def py_index_def
        fcinew_add_a_def fcinew_add_b_def reshape2_def reshape4_def flatten2_def
        einsum_bjai_aiAB_def ar_sum_def float64_arith_def float64_of_real_def
        result_type_def can_cast_def max_float64_def)
  have c: "contract_2e exact_arith (\<lambda>n k. []) (Complex128, [0]) (Float64, [1 :: complex]) 1
     (NelecPair 1 1) (Some ([[(0, 0, 0, 1)]], [[(0, 0, 0, 1)]])) = Inl TypeError"
    by (simp add: contract_2e_def unpack_nelec_def resolve_link_index_def ns
        excitation_tensor_def link_loop_def t1_add_a_def t1_add_b_def py_index_def
        fcinew_add_a_def result_type_def can_cast_def)
  have d: "contract_2e float64_arith (\<lambda>n k. []) (Float64, []) (Float64, []) (- 1)
     (NelecPair 0 0) (Some ([], [])) = Inl ValueError"
    by (simp add: contract_2e_def unpack_nelec_def resolve_link_index_def num_strings_def)
  show ?thesis using a b c d by blast
qed

text \<open>
  Claim C9, amended. Let norb be non-negative, let the link index, supplied or
  generated, fit the two sectors, let the CI vector have the length na * nb, let the
  tensor consist of norb ^ 4 zeros and not be complex while the vector is real, and let
  no entry of the intermediate tensor \<open>t1\<close> of lines 46-52 (sums of entries of the vector
  with signs) be infinite or NaN. Then \<open>contract_2e\<close> returns an array of the dtype and of
  the length of the vector, all of whose entries are zero. This holds in every
  arithmetic in which zero times a finite entry, a sign times zero and zero plus zero
  are zero: \<open>is_zero\<close> and \<open>finite_entry\<close> say which entries are zero and which are
  finite. Exact arithmetic is one (every entry is finite), float64 is another.
\<close>

theorem contract_2e_zero_tensor:
  fixes ar :: "'a arith" and is_zero finite_entry :: "'a \<Rightarrow> bool"
  assumes z0: "is_zero (ar_zero ar)"
    and zm: "\<And>x y. is_zero x \<Longrightarrow> finite_entry y \<Longrightarrow> is_zero (ar_mul ar x y)"
    and zs: "\<And>k y. is_zero y \<Longrightarrow> is_zero (ar_mul ar (ar_of_int ar k) y)"
    and za: "\<And>x y. is_zero x \<Longrightarrow> is_zero y \<Longrightarrow> is_zero (ar_add ar x y)"
    and norb: "0 \<le> norb"
    and un: "unpack_nelec nelec = (neleca, nelecb)"
    and li: "resolve_link_index gen norb neleca nelecb link_index = (lia, lib)"
    and oka0: "link_index_ok (nat norb) (nat (num_strings norb neleca)) lia"
    and okb0: "link_index_ok (nat norb) (nat (num_strings norb nelecb)) lib"
    and len0: "int (length (snd fcivec)) = num_strings norb neleca * num_strings norb nelecb"
    and eri_len0: "length (snd eri) = nat norb ^ 4"
    and eri_zero: "list_all is_zero (snd eri)"
    and cast: "\<not> (fst eri = Complex128 \<and> fst fcivec = Float64)"
    and fin0: "\<And>t1 p q A B.
         excitation_tensor ar (nat norb) (nat (num_strings norb neleca))
           (nat (num_strings norb nelecb))
           (reshape2 (nat (num_strings norb nelecb)) (snd fcivec)) lia lib = Inr t1 \<Longrightarrow>
         p < nat norb \<Longrightarrow> q < nat norb \<Longrightarrow>
         A < nat (num_strings norb neleca) \<Longrightarrow> B < nat (num_strings norb nelecb) \<Longrightarrow>
         finite_entry (t1 p q A B)"
  shows "\<exists>ys. contract_2e ar gen eri fcivec norb nelec link_index = Inr (fst fcivec, ys) \<and>
              length ys = length (snd fcivec) \<and> list_all is_zero ys"
proof -
  define n where "n = nat norb"
  define na where "na = nat (num_strings norb neleca)"
  define nb where "nb = nat (num_strings norb nelecb)"
  note n = n_def and na = na_def and nb = nb_def
  have nn: "0 \<le> num_strings norb neleca" "0 \<le> num_strings norb nelecb"
    by (simp_all add: num_strings_def)
  have "length (snd fcivec) = nat (num_strings norb neleca * num_strings norb nelecb)"
    using len0 by (metis nat_int)
  then have len: "length (snd fcivec) = na * nb"
    using nn by (simp add: na_def nb_def nat_mult_distrib)
  have oka: "link_index_ok n na lia" and okb: "link_index_ok n nb lib"
    using oka0 okb0 by (simp_all add: n_def na_def nb_def)
  have eri_len: "length (snd eri) = n ^ 4"
    using eri_len0 by (simp add: n_def)
  have fin: "finite_entry (t1 p q A B)"
    if "excitation_tensor ar n na nb (reshape2 nb (snd fcivec)) lia lib = Inr t1"
      "p < n" "q < n" "A < na" "B < nb" for t1 p q A B
    using that unfolding n_def na_def nb_def by (rule fin0)
  define ci0 where "ci0 = reshape2 nb (snd fcivec)"
  obtain t1 where t1: "excitation_tensor ar n na nb ci0 lia lib = Inr t1"
    using excitation_tensor_ok [OF oka okb] by blast
  define t2 where "t2 = einsum_bjai_aiAB ar n (reshape4 n (snd eri)) t1"
  have z: "is_zero (t2 p q A B)" if "p < n" "q < n" "A < na" "B < nb" for p q A B
    unfolding t2_def
    by (rule einsum_zero [where is_zero = is_zero and fin = finite_entry,
          OF z0 zm za eri_len eri_zero _ that(1,2)])
      (use fin t1 that in \<open>auto simp add: ci0_def\<close>)
  have c: "can_cast (result_type (fst eri) (fst fcivec)) (fst fcivec)"
    using cast by (auto simp add: can_cast_def result_type_def)
  let ?P = "\<lambda>f. \<forall>A<na. \<forall>B<nb. is_zero (f A B)"
  have "\<exists>fa. link_loop (fcinew_add_a ar True n na t2) lia (\<lambda>A B. ar_zero ar) = Inr fa \<and> ?P fa"
  proof (rule link_loop_invariant [where P = ?P])
    show "?P (\<lambda>A B. ar_zero ar)" by (simp add: z0)
  next
    fix str0 tab e t
    assume "str0 < length lia" "tab \<in> set lia" "e \<in> set tab" and t: "?P t"
    then have "entry_ok n na e" "str0 < na"
      using link_index_okD [OF oka] by blast+
    then show "\<exists>t'. fcinew_add_a ar True n na t2 str0 e t = Inr t' \<and> ?P t'"
      using z t by (intro fcinew_add_a_zero [where is_zero = is_zero, OF zs za]) auto
  qed
  then obtain fa where fa: "link_loop (fcinew_add_a ar True n na t2) lia (\<lambda>A B. ar_zero ar) = Inr fa"
    and Pa: "?P fa" by blast
  have "\<exists>fb. link_loop (fcinew_add_b ar True n nb t2) lib fa = Inr fb \<and> ?P fb"
  proof (rule link_loop_invariant [where P = ?P])
    show "?P fa" by (rule Pa)
  next
    fix str0 tab e t
    assume "str0 < length lib" "tab \<in> set lib" "e \<in> set tab" and t: "?P t"
    then have "entry_ok n nb e" "str0 < nb"
      using link_index_okD [OF okb] by blast+
    then show "\<exists>t'. fcinew_add_b ar True n nb t2 str0 e t = Inr t' \<and> ?P t'"
      using z t by (intro fcinew_add_b_zero [where is_zero = is_zero, OF zs za]) auto
  qed
  then obtain fb where fb: "link_loop (fcinew_add_b ar True n nb t2) lib fa = Inr fb"
    and Pb: "?P fb" by blast
  have "contract_2e ar gen eri fcivec norb nelec link_index = Inr (fst fcivec, flatten2 na nb fb)"
    unfolding contract_2e_def un
    apply (simp only: prod.case li)
    apply (simp only: Let_def flip: n na nb)
    apply (simp only: flip: ci0_def)
    using norb len t1 eri_len c fa fb
    apply (simp flip: t2_def)
    done
  moreover have "length (flatten2 na nb fb) = length (snd fcivec)"
    by (simp add: flatten2_def len)
  moreover have "list_all is_zero (flatten2 na nb fb)"
    using Pb by (rule flatten2_all [where P = is_zero and f = fb])
  ultimately show ?thesis by blast
qed

theorem contract_2e_zero_tensor_witness:
  "(\<forall>r. float64_mul (Fin 0) (Fin r) = Fin 0) \<and>
   (\<forall>k. float64_mul (Fin (of_int k)) (Fin 0) = Fin 0) \<and>
   float64_add (Fin 0) (Fin 0) = Fin 0 \<and>
   (0::int) \<le> 1 \<and>
   unpack_nelec (NelecPair 1 1) = (1, 1) \<and>
   link_index_ok (nat 1) (nat (num_strings 1 1)) [[(0, 0, 0, 1)]] \<and>
   int (length [Fin 3]) = num_strings 1 1 * num_strings 1 1 \<and>
   (\<exists>t1. excitation_tensor float64_arith 1 1 1 (reshape2 1 [Fin 3])
           [[(0, 0, 0, 1)]] [[(0, 0, 0, 1)]] = Inr t1 \<and> t1 0 0 0 0 = Fin 6) \<and>
   contract_2e float64_arith (\<lambda>n k. []) (Float64, [Fin 0]) (Float64, [Fin 3]) 1 (NelecPair 1 1)
     (Some ([[(0, 0, 0, 1)]], [[(0, 0, 0, 1)]])) = Inr (Float64, [Fin 0])"
proof -
  let ?tab = "[[(0, 0, 0, 1)]] :: link_table"
  let ?v = "[Fin 3]"
  have m0: "0 \<le> max_float64" "\<not> max_float64 < 0"
    by (simp_all add: max_float64_def)
  have l1: "float64_mul (Fin 0) (Fin r) = Fin 0" for r
    by (simp add: float64_of_real_def m0)
  have l2: "float64_mul (Fin (of_int k)) (Fin 0) = Fin 0" for k
    by (simp add: float64_of_real_def m0)
  have l3: "float64_add (Fin 0) (Fin 0) = Fin 0"
    by (simp add: float64_of_real_def m0)
  have h2: "unpack_nelec (NelecPair 1 1) = (1, 1)"
    by (simp add: unpack_nelec_def)
  have h3: "resolve_link_index (\<lambda>n k. []) 1 1 1 (Some (?tab, ?tab)) = (?tab, ?tab)"
    by (simp add: resolve_link_index_def)
  have ns: "num_strings 1 1 = 1"
    by (simp add: num_strings_def)
  have h4: "link_index_ok (nat 1) (nat (num_strings 1 1)) ?tab"
    by (simp add: ns link_index_ok_def entry_ok_def py_index_def)
  have h5: "int (length ?v) = num_strings 1 1 * num_strings 1 1"
    by (simp add: ns)
  have ex: "t1 0 0 0 0 = Fin 6"
    if "excitation_tensor float64_arith 1 1 1 (reshape2 1 ?v) ?tab ?tab = Inr t1" for t1
    using that
    by (auto simp add: excitation_tensor_def link_loop_def t1_add_a_def t1_add_b_def
        py_index_def reshape2_def float64_arith_def float64_of_real_def max_float64_def)
  have ok: "\<exists>t1. excitation_tensor float64_arith 1 1 1 (reshape2 1 ?v) ?tab ?tab = Inr t1"
    by (rule excitation_tensor_ok) (simp_all add: link_index_ok_def entry_ok_def py_index_def)
  have ex2: "\<exists>t1. excitation_tensor float64_arith 1 1 1 (reshape2 1 ?v) ?tab ?tab = Inr t1 \<and>
         t1 0 0 0 0 = Fin 6"
    using ok ex by blast
  have "\<exists>ys. contract_2e float64_arith (\<lambda>n k. []) (Float64, [Fin 0]) (Float64, ?v) 1
          (NelecPair 1 1) (Some (?tab, ?tab)) = Inr (fst (Float64, ?v), ys) \<and>
          length ys = length (snd (Float64, ?v)) \<and> list_all (\<lambda>x. x = Fin 0) ys"
  proof (rule contract_2e_zero_tensor [where is_zero = "\<lambda>x. x = Fin 0"
        and finite_entry = "\<lambda>x. \<exists>r. x = Fin r", OF _ _ _ _ _ h2 h3])
    show "ar_zero float64_arith = Fin 0" by (simp add: float64_arith_def)
    show "ar_mul float64_arith x y = Fin 0" if "x = Fin 0" "\<exists>r. y = Fin r" for x y
      using that l1 by (auto simp add: float64_arith_def)
    show "ar_mul float64_arith (ar_of_int float64_arith k) y = Fin 0" if "y = Fin 0" for k y
      using that l2 by (simp add: float64_arith_def)
    show "ar_add float64_arith x y = Fin 0" if "x = Fin 0" "y = Fin 0" for x y
      using that l3 by (simp add: float64_arith_def)
    show "(0::int) \<le> 1" by simp
    show "link_index_ok (nat 1) (nat (num_strings 1 1)) ?tab" by (rule h4)
    show "link_index_ok (nat 1) (nat (num_strings 1 1)) ?tab" by (rule h4)
    show "int (length (snd (Float64, ?v))) = num_strings 1 1 * num_strings 1 1"
      using h5 by simp
    show "length (snd (Float64, [Fin (0::real)])) = nat 1 ^ 4" by simp
    show "list_all (\<lambda>x. x = Fin 0) (snd (Float64, [Fin 0]))"
      by simp
    show "\<not> (fst (Float64, [Fin (0::real)]) = Complex128 \<and> fst (Float64, ?v) = Float64)"
      by simp
    show "\<exists>r. t1 p q A B = Fin r"
      if "excitation_tensor float64_arith (nat 1) (nat (num_strings 1 1)) (nat (num_strings 1 1))
           (reshape2 (nat (num_strings 1 1)) (snd (Float64, ?v))) ?tab ?tab = Inr t1"
        "p < nat 1" "q < nat 1" "A < nat (num_strings 1 1)" "B < nat (num_strings 1 1)"
      for t1 p q A B
      using that ex [of t1] by (simp add: ns)
  qed
  then obtain ys where
    r: "contract_2e float64_arith (\<lambda>n k. []) (Float64, [Fin 0]) (Float64, ?v) 1
          (NelecPair 1 1) (Some (?tab, ?tab)) = Inr (Float64, ys)"
    and l: "length ys = 1" and z: "list_all (\<lambda>x. x = Fin 0) ys"
    by auto
  have "ys = [Fin 0]"
    using l z by (auto simp add: length_Suc_conv)
  then show ?thesis
    using r l1 l2 l3 h2 h4 h5 ex2 by simp
qed

section \<open>Properties of the diagonal contractions\<close>





lemma length_ravel [simp]: "length (ravel a) = nrows a * ncols a"
  by (simp add: ravel_def flatten2_def)


lemma length_basis_vector [simp]: "length (basis_vector n k) = n"
  by (simp add: basis_vector_def)











section \<open>Properties of the linear operators\<close>

lemma contract_diag_coulomb_length:
  assumes "contract_diag_coulomb gen_occ vec mat norb (n_alpha, n_beta) mab oa ob = Inr y"
  shows "length y = nat (comb norb n_alpha) * nat (comb norb n_beta)"
  using assms
  by (auto simp add: contract_diag_coulomb_def Let_def bind_res_def reshape_2d_def
      contract_diag_coulomb_into_buffer_def zeros_like_def
      split: sum.splits if_splits)

lemma contract_num_op_sum_length:
  assumes "contract_num_op_sum gen_occ vec coeffs norb (n_alpha, n_beta) oa ob = Inr y"
  shows "length y = nat (comb norb n_alpha) * nat (comb norb n_beta)"
  using assms
  by (auto simp add: contract_num_op_sum_def Let_def bind_res_def reshape_2d_def
      contract_num_op_sum_spin_into_buffer_def zeros_like_def transpose_2d_def
      split: sum.splits if_splits)

lemma contract_diag_coulomb_cached_occupations:
  "contract_diag_coulomb gen_occ vec mat norb (n_alpha, n_beta) mab
     (Some (gen_occ norb n_alpha)) (Some (gen_occ norb n_beta))
   = contract_diag_coulomb gen_occ vec mat norb (n_alpha, n_beta) mab None None"
  by (simp add: contract_diag_coulomb_def resolve_occupations_def)

lemma contract_num_op_sum_cached_occupations:
  "contract_num_op_sum gen_occ vec coeffs norb (n_alpha, n_beta)
     (Some (gen_occ norb n_alpha)) (Some (gen_occ norb n_beta))
   = contract_num_op_sum gen_occ vec coeffs norb (n_alpha, n_beta) None None"
  by (simp add: contract_num_op_sum_def resolve_occupations_def)

lemma int_dim_product:
  "int (nat (comb norb n_alpha) * nat (comb norb n_beta)) = comb norb n_alpha * comb norb n_beta"
  by (simp add: comb_nonneg)

lemma contract_diag_coulomb_typed_cached_occupations:
  "contract_diag_coulomb_typed gen_occ vec mat norb (n_alpha, n_beta) mab
     (Some (gen_occ norb n_alpha)) (Some (gen_occ norb n_beta))
   = contract_diag_coulomb_typed gen_occ vec mat norb (n_alpha, n_beta) mab None None"
  by (simp add: contract_diag_coulomb_typed_def contract_diag_coulomb_cached_occupations)

lemma contract_num_op_sum_typed_cached_occupations:
  "contract_num_op_sum_typed gen_occ vec coeffs norb (n_alpha, n_beta)
     (Some (gen_occ norb n_alpha)) (Some (gen_occ norb n_beta))
   = contract_num_op_sum_typed gen_occ vec coeffs norb (n_alpha, n_beta) None None"
  by (simp add: contract_num_op_sum_typed_def contract_num_op_sum_cached_occupations)

lemma contract_diag_coulomb_typed_result:
  assumes "contract_diag_coulomb_typed gen_occ vec mat norb (n_alpha, n_beta) mab oa ob = Inr y"
  shows "fst y = fst vec"
    and "contract_diag_coulomb gen_occ (snd vec) (snd mat) norb (n_alpha, n_beta)
           (map_option snd mab) oa ob = Inr (snd y)"
    and "kernel_dtypes_ok (fst vec) [fst mat, fst (case mab of None \<Rightarrow> mat | Some m \<Rightarrow> m)]"
  using assms
  by (auto simp add: contract_diag_coulomb_typed_def Let_def bind_res_def
      split: sum.splits if_splits)

lemma contract_num_op_sum_typed_result:
  assumes "contract_num_op_sum_typed gen_occ vec coeffs norb (n_alpha, n_beta) oa ob = Inr y"
  shows "fst y = fst vec"
    and "contract_num_op_sum gen_occ (snd vec) (snd coeffs) norb (n_alpha, n_beta) oa ob
           = Inr (snd y)"
    and "kernel_dtypes_ok (fst vec) [fst coeffs]"
  using assms
  by (auto simp add: contract_num_op_sum_typed_def bind_res_def split: sum.splits if_splits)

lemma linop_apply_checked:
  assumes shape: "lo_shape L = (d, d)"
    and len: "int (length (snd v)) = d"
    and res: "\<And>y. lo_matvec L v = Inr y \<Longrightarrow> int (length (snd y)) = d"
  shows "linop_apply L v = lo_matvec L v"
proof (cases "lo_matvec L v")
  case (Inl e)
  then show ?thesis using shape len by (simp add: linop_apply_def)
next
  case (Inr y)
  then show ?thesis using shape len res [OF Inr] by (simp add: linop_apply_def)
qed

text \<open>
  Claim C8. For every norb, nelec, matrix M, coefficient vector c and vector v of length
  dim_alpha * dim_beta, applying the operator returned by \<open>diag_coulomb_to_linop\<close> to v
  gives the output of the direct call of \<open>contract_diag_coulomb\<close> with the same
  arguments, and applying the operator returned by \<open>num_op_sum_to_linop\<close> to v gives the
  output of the direct call of \<open>contract_num_op_sum\<close>. Whatever the direct call gives,
  an array (its values and its dtype) or an error, the operator gives the same.
\<close>

theorem linop_apply_equals_direct_contraction:
  assumes len: "int (length (snd v)) = comb norb n_alpha * comb norb n_beta"
  shows "(\<exists>L. diag_coulomb_to_linop gen_occ mat norb (n_alpha, n_beta) mat_alpha_beta = Inr L \<and>
              linop_apply L v
              = contract_diag_coulomb_typed gen_occ v mat norb (n_alpha, n_beta) mat_alpha_beta
                  None None) \<and>
         (\<exists>L. num_op_sum_to_linop gen_occ coeffs norb (n_alpha, n_beta) = Inr L \<and>
              linop_apply L v
              = contract_num_op_sum_typed gen_occ v coeffs norb (n_alpha, n_beta) None None)"
proof
  define d where "d = comb norb n_alpha * comb norb n_beta"
  define mv where "mv = (\<lambda>vec. contract_diag_coulomb_typed gen_occ vec mat norb (n_alpha, n_beta)
                            mat_alpha_beta (Some (gen_occ norb n_alpha)) (Some (gen_occ norb n_beta)))"
  define L where "L = \<lparr>lo_shape = (d, d), lo_dtype = fst mat, lo_matvec = mv, lo_rmatvec = mv\<rparr>"
  have mk: "diag_coulomb_to_linop gen_occ mat norb (n_alpha, n_beta) mat_alpha_beta = Inr L"
    by (simp add: diag_coulomb_to_linop_def get_dimension_def Let_def L_def mv_def d_def)
  have "linop_apply L v = lo_matvec L v"
  proof (rule linop_apply_checked)
    show "lo_shape L = (d, d)" by (simp add: L_def)
    show "int (length (snd v)) = d" using len by (simp add: d_def)
    fix y assume "lo_matvec L v = Inr y"
    then have "contract_diag_coulomb_typed gen_occ v mat norb (n_alpha, n_beta) mat_alpha_beta
                 None None = Inr y"
      by (simp add: L_def mv_def contract_diag_coulomb_typed_cached_occupations)
    then have "length (snd y) = nat (comb norb n_alpha) * nat (comb norb n_beta)"
      by (rule contract_diag_coulomb_length [OF contract_diag_coulomb_typed_result(2)])
    then show "int (length (snd y)) = d" by (simp only: d_def int_dim_product)
  qed
  then have "linop_apply L v = contract_diag_coulomb_typed gen_occ v mat norb (n_alpha, n_beta)
                                 mat_alpha_beta None None"
    by (simp add: L_def mv_def contract_diag_coulomb_typed_cached_occupations)
  with mk show "\<exists>L. diag_coulomb_to_linop gen_occ mat norb (n_alpha, n_beta) mat_alpha_beta = Inr L \<and>
              linop_apply L v
              = contract_diag_coulomb_typed gen_occ v mat norb (n_alpha, n_beta) mat_alpha_beta
                  None None"
    by blast
next
  define d where "d = comb norb n_alpha * comb norb n_beta"
  define mv where "mv = (\<lambda>vec. contract_num_op_sum_typed gen_occ vec coeffs norb (n_alpha, n_beta)
                            (Some (gen_occ norb n_alpha)) (Some (gen_occ norb n_beta)))"
  define L where "L = \<lparr>lo_shape = (d, d), lo_dtype = fst coeffs, lo_matvec = mv, lo_rmatvec = mv\<rparr>"
  have mk: "num_op_sum_to_linop gen_occ coeffs norb (n_alpha, n_beta) = Inr L"
    by (simp add: num_op_sum_to_linop_def get_dimension_def Let_def L_def mv_def d_def)
  have "linop_apply L v = lo_matvec L v"
  proof (rule linop_apply_checked)
    show "lo_shape L = (d, d)" by (simp add: L_def)
    show "int (length (snd v)) = d" using len by (simp add: d_def)
    fix y assume "lo_matvec L v = Inr y"
    then have "contract_num_op_sum_typed gen_occ v coeffs norb (n_alpha, n_beta) None None = Inr y"
      by (simp add: L_def mv_def contract_num_op_sum_typed_cached_occupations)
    then have "length (snd y) = nat (comb norb n_alpha) * nat (comb norb n_beta)"
      by (rule contract_num_op_sum_length [OF contract_num_op_sum_typed_result(2)])
    then show "int (length (snd y)) = d" by (simp only: d_def int_dim_product)
  qed
  then have "linop_apply L v = contract_num_op_sum_typed gen_occ v coeffs norb (n_alpha, n_beta)
                                 None None"
    by (simp add: L_def mv_def contract_num_op_sum_typed_cached_occupations)
  with mk show "\<exists>L. num_op_sum_to_linop gen_occ coeffs norb (n_alpha, n_beta) = Inr L \<and>
              linop_apply L v
              = contract_num_op_sum_typed gen_occ v coeffs norb (n_alpha, n_beta) None None"
    by blast
qed

theorem linop_apply_equals_direct_contraction_witness:
  "int (length (snd (Float64, [1, 2, 3, 4 :: real]))) = comb 2 1 * comb 2 1 \<and>
   (\<exists>L. diag_coulomb_to_linop (\<lambda>n k. [[0], [1]]) (Float64, of_rows 2 [[1, 2], [2, 3 :: real]])
           2 (1, 1) None = Inr L \<and>
        linop_apply L (Float64, [1, 2, 3, 4])
        = contract_diag_coulomb_typed (\<lambda>n k. [[0], [1]]) (Float64, [1, 2, 3, 4])
            (Float64, of_rows 2 [[1, 2], [2, 3]]) 2 (1, 1) None None None) \<and>
   (\<exists>L. num_op_sum_to_linop (\<lambda>n k. [[0], [1]]) (Float64, [5, 7 :: real]) 2 (1, 1) = Inr L \<and>
        linop_apply L (Float64, [1, 2, 3, 4])
        = contract_num_op_sum_typed (\<lambda>n k. [[0], [1]]) (Float64, [1, 2, 3, 4]) (Float64, [5, 7])
            2 (1, 1) None None)"
proof -
  have h: "int (length (snd (Float64, [1, 2, 3, 4 :: real]))) = comb 2 1 * comb 2 1"
    by (simp add: comb_def)
  show ?thesis
    using h linop_apply_equals_direct_contraction [OF h,
        where gen_occ = "\<lambda>n k. [[0], [1]]" and mat = "(Float64, of_rows 2 [[1, 2], [2, 3 :: real]])"
          and mat_alpha_beta = None and coeffs = "(Float64, [5, 7 :: real])"]
    by simp
qed

lemma four_contractions_value:
  assumes "\<And>m v. length (contract_1e m v norb nelec li) = length v"
  shows "four_contractions contract_1e t norb nelec li vec
         = Inr (Complex128, four_term (\<lambda>m v. contract_1e m v norb nelec li) t (snd vec))"
proof -
  have "map2 (-) (map2 (+) (map2 (+) (astype_complex a) (times_1j b)) (times_1j c)) (astype_complex d)
        = map (\<lambda>k. complex_of_real (a ! k) + \<i> * complex_of_real (b ! k)
                    + \<i> * complex_of_real (c ! k) - complex_of_real (d ! k)) [0..<n]"
    if "length a = n" "length b = n" "length c = n" "length d = n" for a b c d :: "real list" and n
    using that by (intro nth_equalityI) (simp_all add: astype_complex_def times_1j_def)
  then show ?thesis
    by (simp add: four_contractions_def Let_def iadd_def isub_def assms four_term_def
        astype_complex_def times_1j_def)
qed

lemma complex_split_array2:
  "add_array2 (complex_array2 (real_part2 m)) (scale_array2 \<i> (complex_array2 (imag_part2 m))) = m"
  by (cases m)
    (simp add: add_array2_def complex_array2_def real_part2_def imag_part2_def scale_array2_def
      complex_eq [symmetric])

lemma complex_split_list:
  "map2 (+) (map complex_of_real (map Re v)) (map ((*) \<i>) (map complex_of_real (map Im v))) = v"
  by (intro nth_equalityI) (simp_all add: complex_eq_iff)

lemma four_term_complex_linear:
  assumes shape: "\<And>m v. length (f m v) = length v"
    and F_len: "\<And>m v. length (F m v) = length v"
    and F_real: "\<And>m v. F (complex_array2 m) (map complex_of_real v) = map complex_of_real (f m v)"
    and F_add_m: "\<And>a b v. F (add_array2 a b) v = map2 (+) (F a v) (F b v)"
    and F_add_v: "\<And>m v w. length v = length w \<Longrightarrow> F m (map2 (+) v w) = map2 (+) (F m v) (F m w)"
    and F_i_m: "\<And>m v. F (scale_array2 \<i> m) v = map ((*) \<i>) (F m v)"
    and F_i_v: "\<And>m v. F m (map ((*) \<i>) v) = map ((*) \<i>) (F m v)"
  shows "four_term f m v = F m v"
proof -
  define vr where "vr = map complex_of_real (map Re v)"
  define vi where "vi = map complex_of_real (map Im v)"
  define A where "A = complex_array2 (real_part2 m)"
  define B where "B = complex_array2 (imag_part2 m)"
  have v: "v = map2 (+) vr (map ((*) \<i>) vi)"
    unfolding vr_def vi_def by (rule complex_split_list [symmetric])
  have m: "m = add_array2 A (scale_array2 \<i> B)"
    unfolding A_def B_def by (rule complex_split_array2 [symmetric])
  have lv: "length vr = length v" "length vi = length v"
    by (simp_all add: vr_def vi_def)
  have r: "F A vr = map complex_of_real (f (real_part2 m) (map Re v))"
      "F A vi = map complex_of_real (f (real_part2 m) (map Im v))"
      "F B vr = map complex_of_real (f (imag_part2 m) (map Re v))"
      "F B vi = map complex_of_real (f (imag_part2 m) (map Im v))"
    unfolding A_def B_def vr_def vi_def by (rule F_real)+
  have split_v: "F X v = map2 (+) (F X vr) (map ((*) \<i>) (F X vi))" for X
  proof -
    have "F X v = F X (map2 (+) vr (map ((*) \<i>) vi))" using v by simp
    also have "\<dots> = map2 (+) (F X vr) (F X (map ((*) \<i>) vi))"
      by (rule F_add_v) (simp add: lv)
    finally show ?thesis by (simp add: F_i_v)
  qed
  have "F m v = F (add_array2 A (scale_array2 \<i> B)) v" using m by simp
  also have "\<dots> = map2 (+) (F A v) (map ((*) \<i>) (F B v))"
    by (simp add: F_add_m F_i_m)
  also have "\<dots> = map2 (+) (map2 (+) (F A vr) (map ((*) \<i>) (F A vi)))
                       (map ((*) \<i>) (map2 (+) (F B vr) (map ((*) \<i>) (F B vi))))"
    using split_v [of A] split_v [of B] by simp
  also have "\<dots> = four_term f m v"
    unfolding r four_term_def
    by (intro nth_equalityI) (simp_all add: shape algebra_simps)
  finally show ?thesis by simp
qed

lemma one_body_tensor_to_linop_value:
  "one_body_tensor_to_linop gen contract_1e T norb (n_alpha, n_beta)
   = Inr \<lparr>lo_shape = (comb norb n_alpha * comb norb n_beta, comb norb n_alpha * comb norb n_beta),
           lo_dtype = Complex128,
           lo_matvec = four_contractions contract_1e (snd T) norb (n_alpha, n_beta)
                         (gen norb n_alpha, gen norb n_beta),
           lo_rmatvec = four_contractions contract_1e (conj_transpose (snd T)) norb (n_alpha, n_beta)
                          (gen norb n_alpha, gen norb n_beta)\<rparr>"
  by (simp add: one_body_tensor_to_linop_def get_dimension_def Let_def)

text \<open>
  Claim C3. For every one-body matrix M and CI vector v, real or complex, the forward
  apply of \<open>one_body_tensor_to_linop\<close> is
  f(Re M, Re v) + i f(Im M, Re v) + i f(Re M, Im v) - f(Im M, Im v), with f the real
  single-excitation primitive, and this is the direct application of the complex one-body
  operator to v: of every operator F on complex operands that agrees with f on real
  operands and is additive and compatible with the multiplication by i in both
  arguments. The adjoint apply is the same with the conjugate transpose of M. The
  primitive returns a vector of the length of its argument.
\<close>

theorem one_body_tensor_to_linop_decomposition:
  fixes contract_1e :: primitive_1e
  assumes f: "f = (\<lambda>m v. contract_1e m v norb (n_alpha, n_beta) (gen norb n_alpha, gen norb n_beta))"
    and shape: "\<And>m v. length (f m v) = length v"
    and F_len: "\<And>m v. length (F m v) = length v"
    and F_real: "\<And>m v. F (complex_array2 m) (map complex_of_real v) = map complex_of_real (f m v)"
    and F_add_m: "\<And>a b v. F (add_array2 a b) v = map2 (+) (F a v) (F b v)"
    and F_add_v: "\<And>m v w. length v = length w \<Longrightarrow> F m (map2 (+) v w) = map2 (+) (F m v) (F m w)"
    and F_i_m: "\<And>m v. F (scale_array2 \<i> m) v = map ((*) \<i>) (F m v)"
    and F_i_v: "\<And>m v. F m (map ((*) \<i>) v) = map ((*) \<i>) (F m v)"
  shows "\<exists>L. one_body_tensor_to_linop gen contract_1e T norb (n_alpha, n_beta) = Inr L
           \<and> lo_matvec L vec = Inr (Complex128, four_term f (snd T) (snd vec))
           \<and> four_term f (snd T) (snd vec) = F (snd T) (snd vec)
           \<and> lo_rmatvec L vec = Inr (Complex128, four_term f (conj_transpose (snd T)) (snd vec))
           \<and> four_term f (conj_transpose (snd T)) (snd vec) = F (conj_transpose (snd T)) (snd vec)"
proof -
  have len: "length (contract_1e m v norb (n_alpha, n_beta) (gen norb n_alpha, gen norb n_beta))
               = length v" for m v
    using shape [of m v] by (simp add: f)
  have val: "four_contractions contract_1e t norb (n_alpha, n_beta)
               (gen norb n_alpha, gen norb n_beta) vec
             = Inr (Complex128, four_term f t (snd vec))" for t
    using four_contractions_value [of contract_1e norb "(n_alpha, n_beta)"
        "(gen norb n_alpha, gen norb n_beta)" t vec, OF len]
    by (simp add: f)
  have lin: "four_term f t (snd vec) = F t (snd vec)" for t
    using shape F_len F_real F_add_m F_add_v F_i_m F_i_v
    by (rule four_term_complex_linear [where f = f and F = F])
  obtain L where L: "one_body_tensor_to_linop gen contract_1e T norb (n_alpha, n_beta) = Inr L"
    and mv: "lo_matvec L = four_contractions contract_1e (snd T) norb (n_alpha, n_beta)
                             (gen norb n_alpha, gen norb n_beta)"
    and rmv: "lo_rmatvec L = four_contractions contract_1e (conj_transpose (snd T)) norb
                               (n_alpha, n_beta) (gen norb n_alpha, gen norb n_beta)"
    by (simp add: one_body_tensor_to_linop_value)
  have "lo_matvec L vec = Inr (Complex128, four_term f (snd T) (snd vec))"
    by (simp add: mv val)
  moreover have "lo_rmatvec L vec = Inr (Complex128, four_term f (conj_transpose (snd T)) (snd vec))"
    by (simp add: rmv val)
  ultimately show ?thesis
    using L lin [of "snd T"] lin [of "conj_transpose (snd T)"] by (intro exI [of _ L]) simp
qed

theorem one_body_tensor_to_linop_decomposition_witness:
  "\<exists>L. one_body_tensor_to_linop (\<lambda>n k. []) (\<lambda>m v norb nelec li. map ((*) (entry m 0 0)) v)
          (Complex128, of_rows 1 [[Complex 2 3]]) 1 (1, 0) = Inr L
      \<and> lo_matvec L (Complex128, [Complex 1 1]) = Inr (Complex128, [Complex (- 1) 5])
      \<and> lo_rmatvec L (Complex128, [Complex 1 1]) = Inr (Complex128, [Complex 5 (- 1)])"
proof -
  let ?c = "(\<lambda>m v norb nelec li. map ((*) (entry m 0 0)) v) :: primitive_1e"
  let ?f = "(\<lambda>m v. map ((*) (entry m 0 0)) v) :: real array2 \<Rightarrow> real list \<Rightarrow> real list"
  let ?F = "(\<lambda>m v. map ((*) (entry m 0 0)) v) :: complex array2 \<Rightarrow> complex list \<Rightarrow> complex list"
  let ?T = "(Complex128, of_rows 1 [[Complex 2 3]])"
  let ?v = "(Complex128, [Complex 1 1])"
  have h1: "?f = (\<lambda>m v. ?c m v 1 (1, 0) ([], []))" by simp
  have h2: "length (?f m v) = length v" for m v by simp
  have h3: "length (?F m v) = length v" for m v by simp
  have h4: "?F (complex_array2 m) (map complex_of_real v) = map complex_of_real (?f m v)" for m v
    by (simp add: complex_array2_def)
  have h5: "?F (add_array2 a b) v = map2 (+) (?F a v) (?F b v)" for a b v
    by (intro nth_equalityI) (simp_all add: add_array2_def algebra_simps)
  have h6: "length v = length w \<Longrightarrow> ?F m (map2 (+) v w) = map2 (+) (?F m v) (?F m w)" for m v w
    by (intro nth_equalityI) (simp_all add: algebra_simps)
  have h7: "?F (scale_array2 \<i> m) v = map ((*) \<i>) (?F m v)" for m v
    by (simp add: scale_array2_def)
  have h8: "?F m (map ((*) \<i>) v) = map ((*) \<i>) (?F m v)" for m v
    by simp
  have e1: "?F (snd ?T) (snd ?v) = [Complex (- 1) 5]"
    by (simp add: of_rows_def complex_eq_iff)
  have e2: "?F (conj_transpose (snd ?T)) (snd ?v) = [Complex 5 (- 1)]"
    by (simp add: of_rows_def conj_transpose_def complex_eq_iff)
  from one_body_tensor_to_linop_decomposition
         [where f = ?f and F = ?F and contract_1e = ?c and gen = "\<lambda>n k. []" and norb = 1
            and n_alpha = 1 and n_beta = 0 and T = ?T and vec = ?v,
          OF h1 h2 h3 h4 h5 h6 h7 h8]
  obtain L where L: "one_body_tensor_to_linop (\<lambda>n k. []) ?c ?T 1 (1, 0) = Inr L"
    and m: "lo_matvec L ?v = Inr (Complex128, four_term ?f (snd ?T) (snd ?v))"
    and fm: "four_term ?f (snd ?T) (snd ?v) = ?F (snd ?T) (snd ?v)"
    and r: "lo_rmatvec L ?v = Inr (Complex128, four_term ?f (conj_transpose (snd ?T)) (snd ?v))"
    and fr: "four_term ?f (conj_transpose (snd ?T)) (snd ?v) = ?F (conj_transpose (snd ?T)) (snd ?v)"
    by blast
  have "lo_matvec L ?v = Inr (Complex128, [Complex (- 1) 5])"
    unfolding m fm e1 by (rule refl)
  moreover have "lo_rmatvec L ?v = Inr (Complex128, [Complex 5 (- 1)])"
    unfolding r fr e2 by (rule refl)
  ultimately show ?thesis using L by blast
qed

lemma Im_sum_list:
  "(\<And>x. x \<in> set xs \<Longrightarrow> Im (f x) = 0) \<Longrightarrow> Im (sum_list (map f xs)) = 0"
  by (induction xs) simp_all

lemma Im_pair_sum:
  "(\<And>i j. i \<in> set xs \<Longrightarrow> j \<in> set xs \<Longrightarrow> Im (m i j) = 0) \<Longrightarrow> Im (pair_sum m xs) = 0"
  by (induction xs) (simp_all add: Im_sum_list)

lemma Im_cross_sum:
  "(\<And>i j. i \<in> set xs \<Longrightarrow> j \<in> set ys \<Longrightarrow> Im (m i j) = 0) \<Longrightarrow> Im (cross_sum m xs ys) = 0"
  by (simp add: cross_sum_def Im_sum_list)

lemma real_array2D: "real_array2 m \<Longrightarrow> i < nrows m \<Longrightarrow> j < ncols m \<Longrightarrow> Im (entry m i j) = 0"
  by (simp add: real_array2_def list_all_iff)

lemma real_listD: "real_list xs \<Longrightarrow> i < length xs \<Longrightarrow> Im (xs ! i) = 0"
  by (simp add: real_list_def list_all_length)

lemma real_list_ravel:
  assumes "\<And>i j. i < nrows a \<Longrightarrow> j < ncols a \<Longrightarrow> Im (entry a i j) = 0"
  shows "real_list (ravel a)"
  unfolding real_list_def ravel_def
  by (rule flatten2_all) (simp add: assms)

lemma contract_diag_coulomb_real:
  assumes r: "contract_diag_coulomb gen_occ vec mat norb (n_alpha, n_beta) mab oa ob = Inr ys"
    and m: "real_array2 mat"
    and mb: "case mab of None \<Rightarrow> True | Some m' \<Rightarrow> real_array2 m'"
    and v: "real_list vec"
  shows "real_list ys"
proof -
  define mat_ab where "mat_ab = (case mab of None \<Rightarrow> mat | Some m' \<Rightarrow> m')"
  define da where "da = nat (comb norb n_alpha)"
  define db where "db = nat (comb norb n_beta)"
  define occ_a where "occ_a = resolve_occupations gen_occ norb n_alpha oa"
  define occ_b where "occ_b = resolve_occupations gen_occ norb n_beta ob"
  have mab: "real_array2 mat_ab"
    using m mb by (simp add: mat_ab_def split: option.splits)
  from r obtain mat_h vec2 out where
    h: "halve_diagonal norb mat = Inr mat_h"
    and v2: "reshape_2d da db vec = Inr vec2"
    and k: "contract_diag_coulomb_into_buffer vec2 mat_h norb mat_ab occ_a occ_b (zeros_like vec2)
            = Inr out"
    and ys: "ys = ravel out"
    unfolding contract_diag_coulomb_def Let_def prod.case
    by (auto simp add: bind_res_eq_Inr mat_ab_def da_def db_def occ_a_def occ_b_def)
  from h have mh: "nrows mat_h = nrows mat" "ncols mat_h = ncols mat"
    "\<And>i j. i < nrows mat \<Longrightarrow> j < ncols mat \<Longrightarrow> Im (entry mat_h i j) = 0"
    using real_array2D [OF m]
    by (auto simp add: halve_diagonal_def split: if_splits)
  from v2 have len: "length vec = da * db" and ve: "vec2 = \<lparr>nrows = da, ncols = db, entry = reshape2 db vec\<rparr>"
    by (auto simp add: reshape_2d_def split: if_splits)
  have vr: "Im (entry vec2 a b) = 0" if "a < da" "b < db" for a b
    using real_listD [OF v, of "a * db + b"] that len
    by (simp add: ve reshape2_def index_step_lt)
  from k have ok: "nrows mat_h = nat norb" "ncols mat_h = nat norb"
    "nrows mat_ab = nat norb" "ncols mat_ab = nat norb"
    "length occ_a = da" "length occ_b = db"
    "list_all (list_all (\<lambda>orb. orb < nat norb)) occ_a"
    "list_all (list_all (\<lambda>orb. orb < nat norb)) occ_b"
    by (auto simp add: contract_diag_coulomb_into_buffer_def ve split: if_splits)
  have oa: "orb < nat norb" if "a < da" "orb \<in> set (occ_a ! a)" for a orb
    using ok(5,7) that nth_mem [of a occ_a] by (auto simp add: list_all_iff)
  have ob: "orb < nat norb" if "b < db" "orb \<in> set (occ_b ! b)" for b orb
    using ok(6,8) that nth_mem [of b occ_b] by (auto simp add: list_all_iff)
  have e: "Im (entry out a b) = 0" if "a < da" "b < db" for a b
  proof -
    have 1: "Im (pair_sum (entry mat_h) (occ_a ! a)) = 0"
      by (rule Im_pair_sum) (use oa that mh ok in auto)
    have 2: "Im (pair_sum (entry mat_h) (occ_b ! b)) = 0"
      by (rule Im_pair_sum) (use ob that mh ok in auto)
    have 3: "Im (cross_sum (entry mat_ab) (occ_a ! a) (occ_b ! b)) = 0"
      by (rule Im_cross_sum) (use oa ob that ok real_array2D [OF mab] in auto)
    from k have "entry out a b = entry (zeros_like vec2) a b
        + (pair_sum (entry mat_h) (occ_a ! a) + pair_sum (entry mat_h) (occ_b ! b)
           + cross_sum (entry mat_ab) (occ_a ! a) (occ_b ! b)) * entry vec2 a b"
      using that by (auto simp add: contract_diag_coulomb_into_buffer_def ve split: if_splits)
    then show ?thesis
      using 1 2 3 vr [OF that] by (simp add: zeros_like_def)
  qed
  from k have ext: "nrows out = da" "ncols out = db"
    by (auto simp add: contract_diag_coulomb_into_buffer_def ve zeros_like_def split: if_splits)
  show ?thesis
    unfolding ys by (rule real_list_ravel) (simp add: ext e)
qed

lemma contract_num_op_sum_real:
  assumes r: "contract_num_op_sum gen_occ vec coeffs norb (n_alpha, n_beta) oa ob = Inr ys"
    and c: "real_list coeffs"
    and v: "real_list vec"
  shows "real_list ys"
proof -
  define da where "da = nat (comb norb n_alpha)"
  define db where "db = nat (comb norb n_beta)"
  define occ_a where "occ_a = resolve_occupations gen_occ norb n_alpha oa"
  define occ_b where "occ_b = resolve_occupations gen_occ norb n_beta ob"
  from r obtain vec2 out_a out_b where
    v2: "reshape_2d da db vec = Inr vec2"
    and ka: "contract_num_op_sum_spin_into_buffer vec2 coeffs occ_a (zeros_like vec2) = Inr out_a"
    and kb: "contract_num_op_sum_spin_into_buffer (transpose_2d vec2) coeffs occ_b
               (transpose_2d out_a) = Inr out_b"
    and ys: "ys = ravel (transpose_2d out_b)"
    unfolding contract_num_op_sum_def Let_def prod.case
    by (auto simp add: bind_res_eq_Inr da_def db_def occ_a_def occ_b_def)
  from v2 have len: "length vec = da * db" and ve: "vec2 = \<lparr>nrows = da, ncols = db, entry = reshape2 db vec\<rparr>"
    by (auto simp add: reshape_2d_def split: if_splits)
  have vr: "Im (entry vec2 a b) = 0" if "a < da" "b < db" for a b
    using real_listD [OF v, of "a * db + b"] that len
    by (simp add: ve reshape2_def index_step_lt)
  have cs: "Im (sum_list (map (\<lambda>orb. coeffs ! orb) row)) = 0"
    if "list_all (\<lambda>orb. orb < length coeffs) row" for row
    by (rule Im_sum_list) (use that real_listD [OF c] in \<open>auto simp add: list_all_iff\<close>)
  from ka have oka: "length occ_a = da"
    "list_all (list_all (\<lambda>orb. orb < length coeffs)) occ_a"
    and exa: "nrows out_a = da" "ncols out_a = db"
    by (auto simp add: contract_num_op_sum_spin_into_buffer_def ve zeros_like_def split: if_splits)
  have ea: "Im (entry out_a a b) = 0" if "a < da" "b < db" for a b
  proof -
    from ka have "entry out_a a b = entry (zeros_like vec2) a b
        + sum_list (map (\<lambda>orb. coeffs ! orb) (occ_a ! a)) * entry vec2 a b"
      using that by (auto simp add: contract_num_op_sum_spin_into_buffer_def ve split: if_splits)
    moreover have "list_all (\<lambda>orb. orb < length coeffs) (occ_a ! a)"
      using oka that nth_mem [of a occ_a] by (auto simp add: list_all_iff)
    ultimately show ?thesis
      using cs vr [OF that] by (simp add: zeros_like_def)
  qed
  from kb have okb: "length occ_b = db"
    "list_all (list_all (\<lambda>orb. orb < length coeffs)) occ_b"
    and exb: "nrows out_b = db" "ncols out_b = da"
    by (auto simp add: contract_num_op_sum_spin_into_buffer_def ve transpose_2d_def exa
        split: if_splits)
  have eb: "Im (entry out_b b a) = 0" if "a < da" "b < db" for a b
  proof -
    from kb have "entry out_b b a = entry out_a a b
        + sum_list (map (\<lambda>orb. coeffs ! orb) (occ_b ! b)) * entry vec2 a b"
      using that
      by (auto simp add: contract_num_op_sum_spin_into_buffer_def ve transpose_2d_def
          split: if_splits)
    moreover have "list_all (\<lambda>orb. orb < length coeffs) (occ_b ! b)"
      using okb that nth_mem [of b occ_b] by (auto simp add: list_all_iff)
    ultimately show ?thesis
      using cs vr [OF that] ea [OF that] by simp
  qed
  show ?thesis
    unfolding ys by (rule real_list_ravel) (simp add: transpose_2d_def exb eb)
qed

lemma linop_apply_Inr: "linop_apply L v = Inr y \<Longrightarrow> lo_matvec L v = Inr y"
  by (cases "lo_shape L") (auto simp add: linop_apply_def bind_res_eq_Inr split: if_splits)

lemma diag_coulomb_to_linop_value:
  "diag_coulomb_to_linop gen_occ mat norb (n_alpha, n_beta) mab
   = Inr \<lparr>lo_shape = (comb norb n_alpha * comb norb n_beta, comb norb n_alpha * comb norb n_beta),
           lo_dtype = fst mat,
           lo_matvec = (\<lambda>vec. contract_diag_coulomb_typed gen_occ vec mat norb (n_alpha, n_beta) mab
                                 None None),
           lo_rmatvec = (\<lambda>vec. contract_diag_coulomb_typed gen_occ vec mat norb (n_alpha, n_beta) mab
                                  None None)\<rparr>"
  by (simp add: diag_coulomb_to_linop_def get_dimension_def Let_def
      contract_diag_coulomb_typed_cached_occupations)

lemma num_op_sum_to_linop_value:
  "num_op_sum_to_linop gen_occ coeffs norb (n_alpha, n_beta)
   = Inr \<lparr>lo_shape = (comb norb n_alpha * comb norb n_beta, comb norb n_alpha * comb norb n_beta),
           lo_dtype = fst coeffs,
           lo_matvec = (\<lambda>vec. contract_num_op_sum_typed gen_occ vec coeffs norb (n_alpha, n_beta)
                                 None None),
           lo_rmatvec = (\<lambda>vec. contract_num_op_sum_typed gen_occ vec coeffs norb (n_alpha, n_beta)
                                  None None)\<rparr>"
  by (simp add: num_op_sum_to_linop_def get_dimension_def Let_def
      contract_num_op_sum_typed_cached_occupations)

lemma get_hamiltonian_linop_value:
  "get_hamiltonian_linop ar gen absorb h1 h2 norb (n_alpha, n_beta)
   = Inr \<lparr>lo_shape = (comb norb n_alpha * comb norb n_beta, comb norb n_alpha * comb norb n_beta),
           lo_dtype = fst h1,
           lo_matvec = (\<lambda>vec. contract_2e ar gen (absorb h1 h2 norb (n_alpha, n_beta)) vec norb
                                 (NelecPair n_alpha n_beta)
                                 (Some (gen norb n_alpha, gen norb n_beta))),
           lo_rmatvec = (\<lambda>vec. contract_2e ar gen (absorb h1 h2 norb (n_alpha, n_beta)) vec norb
                                  (NelecPair n_alpha n_beta)
                                  (Some (gen norb n_alpha, gen norb n_beta)))\<rparr>"
  by (simp add: get_hamiltonian_linop_def get_dimension_def Let_def)

lemma dtype_not_complex: "d \<noteq> Complex128 \<longleftrightarrow> d = Float64"
  by (cases d) simp_all

lemma contract_diag_coulomb_typed_well_typed:
  fixes mat :: "complex array2 ndarray"
  assumes r: "contract_diag_coulomb_typed gen_occ v mat norb (n_alpha, n_beta) mab oa ob = Inr y"
    and m: "well_typed2 mat"
    and mb: "case mab of None \<Rightarrow> True | Some m' \<Rightarrow> well_typed2 m'"
    and v: "well_typed v"
  shows "well_typed y"
proof (cases "fst v")
  case Complex128
  then show ?thesis
    using contract_diag_coulomb_typed_result(1) [OF r] by (simp add: well_typed_def)
next
  case Float64
  note res = contract_diag_coulomb_typed_result [OF r]
  from res(3) have d: "fst mat = Float64"
    "case mab of None \<Rightarrow> True | Some m' \<Rightarrow> fst m' = Float64"
    by (auto simp add: kernel_dtypes_ok_def can_cast_def Float64 dtype_not_complex
        split: option.splits)
  have "real_list (snd y)"
  proof (rule contract_diag_coulomb_real [OF res(2)])
    show "real_array2 (snd mat)" using m d by (simp add: well_typed2_def)
    show "case map_option snd mab of None \<Rightarrow> True | Some m' \<Rightarrow> real_array2 m'"
      using mb d by (auto simp add: well_typed2_def split: option.splits)
    show "real_list (snd v)" using v Float64 by (simp add: well_typed_def)
  qed
  then show ?thesis by (simp add: well_typed_def)
qed

lemma contract_num_op_sum_typed_well_typed:
  fixes coeffs :: "complex list ndarray"
  assumes r: "contract_num_op_sum_typed gen_occ v coeffs norb (n_alpha, n_beta) oa ob = Inr y"
    and c: "well_typed coeffs"
    and v: "well_typed v"
  shows "well_typed y"
proof (cases "fst v")
  case Complex128
  then show ?thesis
    using contract_num_op_sum_typed_result(1) [OF r] by (simp add: well_typed_def)
next
  case Float64
  note res = contract_num_op_sum_typed_result [OF r]
  from res(3) have d: "fst coeffs = Float64"
    by (auto simp add: kernel_dtypes_ok_def can_cast_def Float64 dtype_not_complex)
  have "real_list (snd y)"
  proof (rule contract_num_op_sum_real [OF res(2)])
    show "real_list (snd coeffs)" using c d by (simp add: well_typed_def)
    show "real_list (snd v)" using v Float64 by (simp add: well_typed_def)
  qed
  then show ?thesis by (simp add: well_typed_def)
qed

lemma contract_2e_result_dtype:
  assumes "contract_2e ar gen eri v norb nelec link_index = Inr y"
  shows "fst y = fst v"
  using assms
  by (auto simp add: contract_2e_def Let_def bind_res_eq_Inr split: prod.splits if_splits)

lemma contract_2e_well_typed:
  assumes r: "contract_2e exact_arith gen eri v norb nelec link_index = Inr y"
    and e: "well_typed eri"
    and v: "well_typed v"
  shows "fst y = fst v \<and> well_typed y"
proof (cases "fst v")
  case Complex128
  have "fst y = fst v"
    using r by (rule contract_2e_result_dtype)
  then show ?thesis using Complex128 by (simp add: well_typed_def)
next
  case Float64
  have "fst y = fst v \<and> list_all (\<lambda>x. Im x = 0) (snd y)"
  proof (rule contract_2e_closed [OF r])
    show "Im (ar_zero exact_arith) = 0" by (simp add: exact_arith_def)
    show "Im (ar_mul exact_arith x y) = 0" if "Im x = 0" "Im y = 0" for x y
      using that by (simp add: exact_arith_def)
    show "Im (ar_add exact_arith x y) = 0" if "Im x = 0" "Im y = 0" for x y
      using that by (simp add: exact_arith_def)
    show "Im (ar_of_int exact_arith k) = 0" for k
      by (simp add: exact_arith_def)
    show "list_all (\<lambda>x. Im x = 0) (snd eri)" if "can_cast (result_type (fst eri) (fst v)) (fst v)"
      using that e
      by (auto simp add: can_cast_def result_type_def Float64 well_typed_def real_list_def
          split: if_splits)
    show "list_all (\<lambda>x. Im x = 0) (snd v)"
      using v Float64 by (simp add: well_typed_def real_list_def)
  qed
  then show ?thesis by (simp add: well_typed_def real_list_def)
qed

text \<open>
  Claim C7, as stated: every operator the engine produces declares the dtype of the
  tensor supplied, a real tensor applied to a real vector gives a real result, and any
  complex operand forces a complex result. Two inputs on which it fails.
  \<open>one_body_tensor_to_linop\<close> on a real tensor declares the complex dtype (line 148),
  and its application to a real vector returns a complex array (line 119).
  \<open>get_hamiltonian_linop\<close> on complex tensors, applied to a real vector, returns no
  complex array: \<open>contract_2e\<close> raises TypeError at line 59, where the complex product
  is added into the real \<open>fcinew\<close>.
\<close>

theorem linop_dtype_promotion_counterexample:
  "(\<exists>L. one_body_tensor_to_linop (\<lambda>n k. []) (\<lambda>m v norb nelec li. map ((*) (entry m 0 0)) v)
          (Float64, of_rows 1 [[2]]) 1 (1, 0) = Inr L
      \<and> lo_dtype L = Complex128
      \<and> lo_dtype L \<noteq> fst (Float64, of_rows 1 [[2 :: complex]])
      \<and> lo_matvec L (Float64, [3]) = Inr (Complex128, [6])) \<and>
   (\<exists>L. get_hamiltonian_linop exact_arith (\<lambda>n k. [[(0, 0, 0, 1)]]) (\<lambda>h1 h2 norb nelec. h2)
          (Complex128, of_rows 1 [[\<i>]]) (Complex128, [\<i>]) 1 (1, 1) = Inr L
      \<and> lo_dtype L = Complex128
      \<and> linop_apply L (Float64, [3]) = Inl TypeError)"
proof -
  let ?c = "(\<lambda>m v norb nelec li. map ((*) (entry m 0 0)) v) :: primitive_1e"
  let ?T = "(Float64, of_rows 1 [[2 :: complex]])"
  have "four_contractions ?c (snd ?T) 1 (1, 0) ([], []) (Float64, [3])
          = Inr (Complex128, four_term (\<lambda>m v. ?c m v 1 (1, 0) ([], [])) (snd ?T) [3])"
    using four_contractions_value [of ?c 1 "(1, 0)" "([], [])" "snd ?T" "(Float64, [3])"] by simp
  also have "four_term (\<lambda>m v. ?c m v 1 (1, 0) ([], [])) (snd ?T) [3] = [6]"
    by (simp add: four_term_def real_part2_def imag_part2_def of_rows_def complex_eq_iff)
  finally have 1: "\<exists>L. one_body_tensor_to_linop (\<lambda>n k. []) ?c ?T 1 (1, 0) = Inr L
      \<and> lo_dtype L = Complex128 \<and> lo_dtype L \<noteq> fst ?T
      \<and> lo_matvec L (Float64, [3]) = Inr (Complex128, [6])"
    by (simp add: one_body_tensor_to_linop_value)
  have ns: "num_strings 1 1 = 1"
    by (simp add: num_strings_def)
  have "contract_2e exact_arith (\<lambda>n k. [[(0, 0, 0, 1)]]) (Complex128, [\<i>]) (Float64, [3]) 1
          (NelecPair 1 1) (Some ([[(0, 0, 0, 1)]], [[(0, 0, 0, 1)]])) = Inl TypeError"
    by (simp add: contract_2e_def unpack_nelec_def resolve_link_index_def ns
        excitation_tensor_def link_loop_def t1_add_a_def t1_add_b_def py_index_def
        fcinew_add_a_def result_type_def can_cast_def)
  then have 2: "\<exists>L. get_hamiltonian_linop exact_arith (\<lambda>n k. [[(0, 0, 0, 1)]])
          (\<lambda>h1 h2 norb nelec. h2) (Complex128, of_rows 1 [[\<i>]]) (Complex128, [\<i>]) 1 (1, 1) = Inr L
      \<and> lo_dtype L = Complex128 \<and> linop_apply L (Float64, [3]) = Inl TypeError"
    by (simp add: get_hamiltonian_linop_value linop_apply_def comb_def)
  from 1 2 show ?thesis by (intro conjI)
qed

text \<open>
  Claim C7, amended. \<open>diag_coulomb_to_linop\<close>, \<open>num_op_sum_to_linop\<close> and
  \<open>get_hamiltonian_linop\<close> declare the dtype of the tensor supplied (\<open>mat\<close>, \<open>coeffs\<close>,
  the one-body tensor). The result of applying one of them has the dtype of the vector,
  and its values fit that dtype when those of the operands fit theirs: a real tensor
  applied to a real vector gives a real result, a complex vector forces a complex
  result, and a complex tensor does not (with a real vector there is no complex result,
  the result buffer being real). \<open>one_body_tensor_to_linop\<close> always declares the complex
  dtype, and every result of its forward and adjoint apply is a complex array.
\<close>

theorem linop_result_dtype:
  fixes mat :: "complex array2 ndarray" and coeffs :: "complex list ndarray"
    and two_body_tensor :: "complex list ndarray" and contract_1e :: primitive_1e
  shows "(\<exists>L. diag_coulomb_to_linop gen_occ mat norb nelec mat_alpha_beta = Inr L \<and>
               lo_dtype L = fst mat \<and>
               (\<forall>v y. linop_apply L v = Inr y \<longrightarrow>
                  fst y = fst v \<and>
                  (well_typed2 mat \<and>
                   (case mat_alpha_beta of None \<Rightarrow> True | Some m \<Rightarrow> well_typed2 m) \<and>
                   well_typed v \<longrightarrow> well_typed y))) \<and>
         (\<exists>L. num_op_sum_to_linop gen_occ' coeffs norb nelec = Inr L \<and>
               lo_dtype L = fst coeffs \<and>
               (\<forall>v y. linop_apply L v = Inr y \<longrightarrow>
                  fst y = fst v \<and> (well_typed coeffs \<and> well_typed v \<longrightarrow> well_typed y))) \<and>
         (\<exists>L. get_hamiltonian_linop exact_arith gen absorb one_body_tensor two_body_tensor
                 norb nelec = Inr L \<and>
               lo_dtype L = fst one_body_tensor \<and>
               (\<forall>v y. linop_apply L v = Inr y \<longrightarrow>
                  fst y = fst v \<and>
                  (well_typed (absorb one_body_tensor two_body_tensor norb nelec) \<and>
                   well_typed v \<longrightarrow> well_typed y))) \<and>
         (\<exists>L. one_body_tensor_to_linop gen contract_1e tensor norb nelec = Inr L \<and>
               lo_dtype L = Complex128 \<and>
               (\<forall>vec r. lo_matvec L vec = Inr r \<longrightarrow> fst r = Complex128) \<and>
               (\<forall>vec r. lo_rmatvec L vec = Inr r \<longrightarrow> fst r = Complex128))"
proof -
  obtain n_alpha n_beta where nelec: "nelec = (n_alpha, n_beta)" by (cases nelec)
  have fc: "fst r = Complex128"
    if "four_contractions contract_1e t norb nelec li vec = Inr r" for t li vec r
    using that
    by (auto simp add: four_contractions_def Let_def bind_res_def split: sum.splits)
  have 1: "\<exists>L. diag_coulomb_to_linop gen_occ mat norb nelec mat_alpha_beta = Inr L \<and>
               lo_dtype L = fst mat \<and>
               (\<forall>v y. linop_apply L v = Inr y \<longrightarrow>
                  fst y = fst v \<and>
                  (well_typed2 mat \<and>
                   (case mat_alpha_beta of None \<Rightarrow> True | Some m \<Rightarrow> well_typed2 m) \<and>
                   well_typed v \<longrightarrow> well_typed y))"
  proof -
    obtain L where L: "diag_coulomb_to_linop gen_occ mat norb nelec mat_alpha_beta = Inr L"
      and d: "lo_dtype L = fst mat"
      and mv: "lo_matvec L = (\<lambda>vec. contract_diag_coulomb_typed gen_occ vec mat norb
                                      (n_alpha, n_beta) mat_alpha_beta None None)"
      by (simp add: nelec diag_coulomb_to_linop_value)
    have "fst y = fst v \<and>
            (well_typed2 mat \<and>
             (case mat_alpha_beta of None \<Rightarrow> True | Some m \<Rightarrow> well_typed2 m) \<and>
             well_typed v \<longrightarrow> well_typed y)"
      if "linop_apply L v = Inr y" for v y
    proof -
      have r: "contract_diag_coulomb_typed gen_occ v mat norb (n_alpha, n_beta)
                 mat_alpha_beta None None = Inr y"
        using linop_apply_Inr [OF that] by (simp add: mv)
      show ?thesis
        using contract_diag_coulomb_typed_result(1) [OF r]
          contract_diag_coulomb_typed_well_typed [OF r]
        by blast
    qed
    with L d show ?thesis by blast
  qed
  have 2: "\<exists>L. num_op_sum_to_linop gen_occ' coeffs norb nelec = Inr L \<and>
               lo_dtype L = fst coeffs \<and>
               (\<forall>v y. linop_apply L v = Inr y \<longrightarrow>
                  fst y = fst v \<and> (well_typed coeffs \<and> well_typed v \<longrightarrow> well_typed y))"
  proof -
    obtain L where L: "num_op_sum_to_linop gen_occ' coeffs norb nelec = Inr L"
      and d: "lo_dtype L = fst coeffs"
      and mv: "lo_matvec L = (\<lambda>vec. contract_num_op_sum_typed gen_occ' vec coeffs norb
                                      (n_alpha, n_beta) None None)"
      by (simp add: nelec num_op_sum_to_linop_value)
    have "fst y = fst v \<and> (well_typed coeffs \<and> well_typed v \<longrightarrow> well_typed y)"
      if "linop_apply L v = Inr y" for v y
    proof -
      have r: "contract_num_op_sum_typed gen_occ' v coeffs norb (n_alpha, n_beta) None None
                 = Inr y"
        using linop_apply_Inr [OF that] by (simp add: mv)
      show ?thesis
        using contract_num_op_sum_typed_result(1) [OF r]
          contract_num_op_sum_typed_well_typed [OF r]
        by blast
    qed
    with L d show ?thesis by blast
  qed
  have 3: "\<exists>L. get_hamiltonian_linop exact_arith gen absorb one_body_tensor two_body_tensor
                 norb nelec = Inr L \<and>
               lo_dtype L = fst one_body_tensor \<and>
               (\<forall>v y. linop_apply L v = Inr y \<longrightarrow>
                  fst y = fst v \<and>
                  (well_typed (absorb one_body_tensor two_body_tensor norb nelec) \<and>
                   well_typed v \<longrightarrow> well_typed y))"
  proof -
    obtain L where L: "get_hamiltonian_linop exact_arith gen absorb one_body_tensor
                         two_body_tensor norb nelec = Inr L"
      and d: "lo_dtype L = fst one_body_tensor"
      and mv: "lo_matvec L = (\<lambda>vec. contract_2e exact_arith gen
                                (absorb one_body_tensor two_body_tensor norb nelec) vec norb
                                (NelecPair n_alpha n_beta)
                                (Some (gen norb n_alpha, gen norb n_beta)))"
      by (simp add: nelec get_hamiltonian_linop_value)
    have "fst y = fst v \<and>
            (well_typed (absorb one_body_tensor two_body_tensor norb nelec) \<and> well_typed v
             \<longrightarrow> well_typed y)"
      if "linop_apply L v = Inr y" for v y
    proof -
      have r: "contract_2e exact_arith gen (absorb one_body_tensor two_body_tensor norb nelec)
                 v norb (NelecPair n_alpha n_beta) (Some (gen norb n_alpha, gen norb n_beta))
               = Inr y"
        using linop_apply_Inr [OF that] by (simp add: mv)
      show ?thesis
        using contract_2e_result_dtype [OF r] contract_2e_well_typed [OF r] by blast
    qed
    with L d show ?thesis by blast
  qed
  have 4: "\<exists>L. one_body_tensor_to_linop gen contract_1e tensor norb nelec = Inr L \<and>
               lo_dtype L = Complex128 \<and>
               (\<forall>vec r. lo_matvec L vec = Inr r \<longrightarrow> fst r = Complex128) \<and>
               (\<forall>vec r. lo_rmatvec L vec = Inr r \<longrightarrow> fst r = Complex128)"
    using fc [unfolded nelec] by (auto simp add: one_body_tensor_to_linop_value nelec)
  from 1 2 3 4 show ?thesis by (intro conjI)
qed

theorem linop_result_dtype_witness:
  "(\<exists>L. diag_coulomb_to_linop (\<lambda>n k. [[0]]) (Float64, of_rows 1 [[2 :: complex]]) 1 (1, 1) None = Inr L \<and>
        lo_dtype L = Float64 \<and>
        well_typed2 (Float64, of_rows 1 [[2]]) \<and> well_typed (Float64, [3]) \<and>
        linop_apply L (Float64, [3]) = Inr (Float64, [12]) \<and>
        well_typed (Float64, [12])) \<and>
   (\<exists>L. num_op_sum_to_linop (\<lambda>n k. [[0]]) (Float64, [5 :: complex]) 1 (1, 1) = Inr L \<and>
        lo_dtype L = Float64 \<and>
        well_typed (Float64, [5]) \<and> well_typed (Complex128, [\<i>]) \<and>
        linop_apply L (Complex128, [\<i>]) = Inr (Complex128, [10 * \<i>])) \<and>
   (\<exists>L. get_hamiltonian_linop exact_arith (\<lambda>n k. [[(0, 0, 0, 1)]]) (\<lambda>h1 h2 norb nelec. h2)
          (Float64, of_rows 1 [[1 :: complex]]) (Float64, [2 :: complex]) 1 (1, 1) = Inr L \<and>
        lo_dtype L = Float64 \<and>
        well_typed (Float64, [2]) \<and> well_typed (Float64, [3]) \<and>
        linop_apply L (Float64, [3]) = Inr (Float64, [24]) \<and>
        well_typed (Float64, [24])) \<and>
   (\<exists>L. one_body_tensor_to_linop (\<lambda>n k. [[(0, 0, 0, 1)]])
           (\<lambda>m v norb nelec li. map ((*) (entry m 0 0)) v)
           (Float64, of_rows 1 [[2]]) 1 (1, 1) = Inr L \<and> lo_dtype L = Complex128)"
proof -
  let ?occ = "(\<lambda>n k. [[0]]) :: int \<Rightarrow> int \<Rightarrow> occupations"
  let ?gen = "(\<lambda>n k. [[(0, 0, 0, 1)]]) :: int \<Rightarrow> int \<Rightarrow> link_table"
  let ?M = "(Float64, of_rows 1 [[2 :: complex]])"
  let ?c = "(Float64, [5 :: complex])"
  let ?absorb = "(\<lambda>h1 h2 norb nelec. h2) ::
     complex array2 ndarray \<Rightarrow> complex list ndarray \<Rightarrow> int \<Rightarrow> int \<times> int \<Rightarrow> complex list ndarray"
  let ?h1 = "(Float64, of_rows 1 [[1 :: complex]])"
  let ?h2 = "(Float64, [2 :: complex])"
  note t = linop_result_dtype
    [where gen_occ = ?occ and mat = ?M and norb = 1 and nelec = "(1, 1)" and mat_alpha_beta = None
       and gen_occ' = ?occ and coeffs = ?c
       and gen = ?gen and absorb = ?absorb and one_body_tensor = ?h1 and two_body_tensor = ?h2
       and contract_1e = "\<lambda>m v norb nelec li. map ((*) (entry m 0 0)) v"
       and tensor = "(Float64, of_rows 1 [[2]])"]
  have wM: "well_typed2 ?M"
    by (simp add: well_typed2_def real_array2_def of_rows_def)
  have w3: "well_typed (Float64, [3])" and w5: "well_typed ?c" and w2: "well_typed ?h2"
    and wi: "well_typed (Complex128, [\<i>])"
    by (simp_all add: well_typed_def real_list_def)
  have c11: "comb 1 1 = 1"
    by (simp add: comb_def)
  have ns: "num_strings 1 1 = 1"
    by (simp add: num_strings_def)
  have a1: "contract_diag_coulomb_typed ?occ (Float64, [3]) ?M 1 (1, 1) None None None
              = Inr (Float64, [12])"
    by (simp add: contract_diag_coulomb_typed_def contract_diag_coulomb_def c11
        resolve_occupations_def halve_diagonal_def reshape_2d_def reshape2_def
        contract_diag_coulomb_into_buffer_def zeros_like_def ravel_def flatten2_def
        cross_sum_def of_rows_def kernel_dtypes_ok_def can_cast_def)
  have a2: "contract_num_op_sum_typed ?occ (Complex128, [\<i>]) ?c 1 (1, 1) None None
              = Inr (Complex128, [10 * \<i>])"
    by (simp add: contract_num_op_sum_typed_def contract_num_op_sum_def c11
        resolve_occupations_def reshape_2d_def reshape2_def transpose_2d_def
        contract_num_op_sum_spin_into_buffer_def zeros_like_def ravel_def flatten2_def
        kernel_dtypes_ok_def can_cast_def)
  have a3: "contract_2e exact_arith ?gen ?h2 (Float64, [3]) 1 (NelecPair 1 1)
              (Some (?gen 1 1, ?gen 1 1)) = Inr (Float64, [24])"
    by (simp add: contract_2e_def unpack_nelec_def resolve_link_index_def ns
        excitation_tensor_def link_loop_def t1_add_a_def t1_add_b_def py_index_def
        fcinew_add_a_def fcinew_add_b_def reshape2_def reshape4_def flatten2_def
        einsum_bjai_aiAB_def ar_sum_def exact_arith_def result_type_def can_cast_def)
  from t obtain L1 where L1: "diag_coulomb_to_linop ?occ ?M 1 (1, 1) None = Inr L1"
    and d1: "lo_dtype L1 = fst ?M"
    and p1: "\<And>v y. linop_apply L1 v = Inr y \<Longrightarrow>
               fst y = fst v \<and> (well_typed2 ?M \<and> True \<and> well_typed v \<longrightarrow> well_typed y)"
    by auto
  have r1: "linop_apply L1 (Float64, [3]) = Inr (Float64, [12])"
    using L1 a1 by (auto simp add: diag_coulomb_to_linop_value linop_apply_def c11)
  have 1: "\<exists>L. diag_coulomb_to_linop ?occ ?M 1 (1, 1) None = Inr L \<and> lo_dtype L = Float64 \<and>
        well_typed2 ?M \<and> well_typed (Float64, [3]) \<and>
        linop_apply L (Float64, [3]) = Inr (Float64, [12]) \<and> well_typed (Float64, [12])"
    using L1 d1 p1 [OF r1] wM w3 r1 by auto
  from t obtain L2 where L2: "num_op_sum_to_linop ?occ ?c 1 (1, 1) = Inr L2"
    and d2: "lo_dtype L2 = fst ?c"
    by auto
  have r2: "linop_apply L2 (Complex128, [\<i>]) = Inr (Complex128, [10 * \<i>])"
    using L2 a2 by (auto simp add: num_op_sum_to_linop_value linop_apply_def c11)
  have 2: "\<exists>L. num_op_sum_to_linop ?occ ?c 1 (1, 1) = Inr L \<and> lo_dtype L = Float64 \<and>
        well_typed ?c \<and> well_typed (Complex128, [\<i>]) \<and>
        linop_apply L (Complex128, [\<i>]) = Inr (Complex128, [10 * \<i>])"
    using L2 d2 w5 wi r2 by auto
  from t obtain L3 where L3: "get_hamiltonian_linop exact_arith ?gen ?absorb ?h1 ?h2 1 (1, 1) = Inr L3"
    and d3: "lo_dtype L3 = fst ?h1"
    and p3: "\<And>v y. linop_apply L3 v = Inr y \<Longrightarrow>
               fst y = fst v \<and> (well_typed (?absorb ?h1 ?h2 1 (1, 1)) \<and> well_typed v
                                 \<longrightarrow> well_typed y)"
    by auto
  have r3: "linop_apply L3 (Float64, [3]) = Inr (Float64, [24])"
    using L3 a3 by (auto simp add: get_hamiltonian_linop_value linop_apply_def c11)
  have 3: "\<exists>L. get_hamiltonian_linop exact_arith ?gen ?absorb ?h1 ?h2 1 (1, 1) = Inr L \<and>
        lo_dtype L = Float64 \<and> well_typed ?h2 \<and> well_typed (Float64, [3]) \<and>
        linop_apply L (Float64, [3]) = Inr (Float64, [24]) \<and> well_typed (Float64, [24])"
    using L3 d3 p3 [OF r3] w2 w3 r3 by auto
  from t have 4: "\<exists>L. one_body_tensor_to_linop ?gen
           (\<lambda>m v norb nelec li. map ((*) (entry m 0 0)) v)
           (Float64, of_rows 1 [[2]]) 1 (1, 1) = Inr L \<and> lo_dtype L = Complex128"
    by blast
  from 1 2 3 4 show ?thesis by (intro conjI)
qed

section \<open>Properties of the diagonal Coulomb operator on a store\<close>

lemma kernel_mem_frame:
  assumes "contract_diag_coulomb_into_buffer_mem vv mat norb mab oa ob out s = (r, s')"
  shows "vectors s' = vectors s"
    and "length (matrices s') = length (matrices s)"
    and "\<And>k. k \<noteq> out \<Longrightarrow> matrices s' ! k = matrices s ! k"
  using assms
  by (auto simp add: contract_diag_coulomb_into_buffer_mem_def split: prod.splits if_splits sum.splits)

lemma take_prefix_unchanged:
  assumes "length ys = length (xs @ zs)" and "\<And>k. k < length xs \<Longrightarrow> ys ! k = (xs @ zs) ! k"
  shows "take (length xs) ys = xs"
  using assms by (intro nth_equalityI) (simp_all add: nth_append)

lemma contract_diag_coulomb_mem_cases:
  fixes s :: "('a::field) store"
  assumes R: "contract_diag_coulomb_mem gen_occ vec mat norb nelec mat_alpha_beta oa ob s = (res, s')"
  shows "vectors s' = vectors s \<and>
         (\<exists>new. length new \<le> 2 \<and> matrices s' = matrices s @ new \<and>
               (\<forall>out. res = Inr out \<longrightarrow>
                  out = Suc (length (matrices s)) \<and>
                  halve_diagonal norb (matrices s ! mat) = Inr (new ! 0)))"
proof (cases "vec < length (vectors s) \<and> mat < length (matrices s)")
  case False
  then have "res = Inl InvalidParameter" "s' = s"
    using R by (auto simp add: contract_diag_coulomb_mem_def Let_def split: prod.splits)
  then show ?thesis by simp
next
  case True
  obtain n_alpha n_beta where nelec: "nelec = (n_alpha, n_beta)" by (cases nelec)
  define m where "m = matrices s ! mat"
  define s1 where "s1 = s\<lparr>matrices := matrices s @ [m]\<rparr>"
  show ?thesis
  proof (cases "halve_diagonal norb m")
    case (Inl e)
    then have "res = Inl e" "s' = s1"
      using R True
      by (auto simp add: contract_diag_coulomb_mem_def Let_def nelec s1_def m_def)
    then show ?thesis by (simp add: s1_def)
  next
    case (Inr mat_h)
    define s2 where "s2 = s\<lparr>matrices := matrices s @ [mat_h]\<rparr>"
    define da where "da = nat (comb norb n_alpha)"
    define db where "db = nat (comb norb n_beta)"
    show ?thesis
    proof (cases "reshape_2d da db (vectors s ! vec)")
      case (Inl e)
      then have "res = Inl e" "s' = s2"
        using R True Inr
        by (auto simp add: contract_diag_coulomb_mem_def Let_def nelec s2_def m_def da_def db_def)
      then show ?thesis by (simp add: s2_def)
    next
      case vec2: (Inr vec2)
      define s3 where "s3 = s\<lparr>matrices := matrices s @ [mat_h, zeros_like vec2]\<rparr>"
      define mab where "mab = (case mat_alpha_beta of None \<Rightarrow> mat | Some r \<Rightarrow> r)"
      obtain r s4 where k: "contract_diag_coulomb_into_buffer_mem (vec, da, db)
          (length (matrices s)) norb mab (resolve_occupations gen_occ norb n_alpha oa)
          (resolve_occupations gen_occ norb n_beta ob) (Suc (length (matrices s))) s3 = (r, s4)"
        by (cases "contract_diag_coulomb_into_buffer_mem (vec, da, db)
          (length (matrices s)) norb mab (resolve_occupations gen_occ norb n_alpha oa)
          (resolve_occupations gen_occ norb n_beta ob) (Suc (length (matrices s))) s3")
      note fr = kernel_mem_frame [OF k]
      have res: "s' = s4" "res = (case r of Inl e \<Rightarrow> Inl e | Inr u \<Rightarrow> Inr (Suc (length (matrices s))))"
        using R True Inr vec2 k
        by (auto simp add: contract_diag_coulomb_mem_def Let_def nelec s3_def m_def da_def db_def
            mab_def split: sum.splits)
      have len: "length (matrices s4) = length (matrices s) + 2"
        using fr(2) by (simp add: s3_def)
      have same: "matrices s4 ! k = (matrices s @ [mat_h, zeros_like vec2]) ! k"
        if "k \<le> length (matrices s)" for k
        using fr(3) [of k] that by (simp add: s3_def)
      have pre: "take (length (matrices s)) (matrices s4) = matrices s"
        by (rule take_prefix_unchanged [where zs = "[mat_h, zeros_like vec2]"])
          (simp_all add: len same)
      have "matrices s4 = take (length (matrices s)) (matrices s4)
                            @ drop (length (matrices s)) (matrices s4)"
        by simp
      then have app: "matrices s4 = matrices s @ drop (length (matrices s)) (matrices s4)"
        by (simp only: pre)
      have d0: "drop (length (matrices s)) (matrices s4) ! 0 = mat_h"
        using same [of "length (matrices s)"] len by simp
      have "length (drop (length (matrices s)) (matrices s4)) \<le> 2"
        using len by simp
      with app d0 show ?thesis
        using fr(1) res Inr
        by (intro conjI exI [of _ "drop (length (matrices s)) (matrices s4)"])
          (auto simp add: s3_def m_def split: sum.splits)
    qed
  qed
qed

lemma contract_diag_coulomb_mem_value:
  fixes s :: "('a::field) store"
  assumes R: "contract_diag_coulomb_mem gen_occ vec mat norb nelec mat_alpha_beta oa ob s = (res, s')"
    and vec: "vec < length (vectors s)" and mat: "mat < length (matrices s)"
    and mab: "\<And>r. mat_alpha_beta = Some r \<Longrightarrow> r < length (matrices s)"
  shows "(case res of Inl e \<Rightarrow> Inl e | Inr out \<Rightarrow> Inr (ravel (matrices s' ! out)))
         = contract_diag_coulomb gen_occ (vectors s ! vec) (matrices s ! mat) norb nelec
             (map_option ((!) (matrices s)) mat_alpha_beta) oa ob"
proof -
  obtain n_alpha n_beta where nelec: "nelec = (n_alpha, n_beta)" by (cases nelec)
  define r where "r = (case mat_alpha_beta of None \<Rightarrow> mat | Some r \<Rightarrow> r)"
  have r: "r < length (matrices s)"
    using mat mab by (simp add: r_def split: option.splits)
  have rv: "(case map_option ((!) (matrices s)) mat_alpha_beta of None \<Rightarrow> matrices s ! mat
             | Some m \<Rightarrow> m) = matrices s ! r"
    by (simp add: r_def split: option.splits)
  show ?thesis
    using R vec mat r
    unfolding contract_diag_coulomb_mem_def contract_diag_coulomb_def
      contract_diag_coulomb_into_buffer_mem_def nelec rv
    by (auto simp add: Let_def nth_append bind_res_def simp flip: r_def
        split: sum.splits prod.splits if_splits)
qed

text \<open>
  Claim C10. \<open>contract_diag_coulomb\<close> never mutates an input its caller can see: after
  every call, failed or not, every buffer that existed before holds the value it held,
  in particular the caller's \<open>mat\<close>, \<open>mat_alpha_beta\<close> and the input vector. The diagonal
  is halved on an internal copy only: after a call that returns, the halved matrix is in
  the buffer allocated first by the call, and the result in a buffer allocated after it.
\<close>

theorem contract_diag_coulomb_leaves_inputs:
  fixes s :: "('a::field) store"
  assumes R: "contract_diag_coulomb_mem gen_occ vec mat norb nelec mat_alpha_beta oa ob s = (res, s')"
  shows "vectors s' = vectors s \<and>
         take (length (matrices s)) (matrices s') = matrices s \<and>
         (mat < length (matrices s) \<longrightarrow> matrices s' ! mat = matrices s ! mat) \<and>
         (\<forall>r. mat_alpha_beta = Some r \<longrightarrow> r < length (matrices s) \<longrightarrow>
              matrices s' ! r = matrices s ! r) \<and>
         (\<forall>out. res = Inr out \<longrightarrow>
              length (matrices s) < out \<and>
              halve_diagonal norb (matrices s ! mat) = Inr (matrices s' ! length (matrices s)))"
proof -
  from contract_diag_coulomb_mem_cases [OF R]
  obtain new where v: "vectors s' = vectors s"
    and m: "matrices s' = matrices s @ new"
    and o: "\<And>out. res = Inr out \<Longrightarrow>
              out = Suc (length (matrices s)) \<and>
              halve_diagonal norb (matrices s ! mat) = Inr (new ! 0)"
    by blast
  show ?thesis
    using v o by (auto simp add: m nth_append)
qed

theorem contract_diag_coulomb_leaves_inputs_witness:
  "fst (contract_diag_coulomb_mem (\<lambda>n k. [[0], [1]]) 0 0 2 (1, 1) None None None
          \<lparr>vectors = [[0, 1, 0, 0 :: real]], matrices = [of_rows 2 [[1, 2], [2, 3]]]\<rparr>) = Inr 2 \<and>
   vectors (snd (contract_diag_coulomb_mem (\<lambda>n k. [[0], [1]]) 0 0 2 (1, 1) None None None
          \<lparr>vectors = [[0, 1, 0, 0 :: real]], matrices = [of_rows 2 [[1, 2], [2, 3]]]\<rparr>))
     = [[0, 1, 0, 0]] \<and>
   matrices (snd (contract_diag_coulomb_mem (\<lambda>n k. [[0], [1]]) 0 0 2 (1, 1) None None None
          \<lparr>vectors = [[0, 1, 0, 0 :: real]], matrices = [of_rows 2 [[1, 2], [2, 3]]]\<rparr>)) ! 0
     = of_rows 2 [[1, 2], [2, 3]] \<and>
   entry (matrices (snd (contract_diag_coulomb_mem (\<lambda>n k. [[0], [1]]) 0 0 2 (1, 1) None None None
          \<lparr>vectors = [[0, 1, 0, 0 :: real]], matrices = [of_rows 2 [[1, 2], [2, 3]]]\<rparr>)) ! 1) 0 0
     = 1 / 2"
proof -
  let ?s = "\<lparr>vectors = [[0, 1, 0, 0 :: real]], matrices = [of_rows 2 [[1, 2], [2, 3]]]\<rparr>"
  let ?R = "contract_diag_coulomb_mem (\<lambda>n k. [[0], [1]]) 0 0 2 (1, 1) None None None ?s"
  have ok: "fst ?R = Inr 2"
    by (simp add: contract_diag_coulomb_mem_def Let_def comb_def resolve_occupations_def
        halve_diagonal_def of_rows_def reshape_2d_def zeros_like_def
        contract_diag_coulomb_into_buffer_mem_def contract_diag_coulomb_into_buffer_def)
  have h: "halve_diagonal 2 (of_rows 2 [[1, 2], [2, 3 :: real]]) = Inr m \<Longrightarrow> entry m 0 0 = 1 / 2" for m
    by (auto simp add: halve_diagonal_def of_rows_def)
  note t = contract_diag_coulomb_leaves_inputs [OF prod.collapse [symmetric],
      of "\<lambda>n k. [[0], [1]]" 0 0 2 "(1, 1)" None None None ?s]
  from t have 1: "vectors (snd ?R) = [[0, 1, 0, 0]]" by simp
  from t have 2: "matrices (snd ?R) ! 0 = of_rows 2 [[1, 2], [2, 3]]" by simp
  from t ok have "halve_diagonal 2 (of_rows 2 [[1, 2], [2, 3 :: real]]) = Inr (matrices (snd ?R) ! 1)"
    by simp
  then have 3: "entry (matrices (snd ?R) ! 1) 0 0 = 1 / 2" by (rule h)
  from ok 1 2 3 show ?thesis by (intro conjI)
qed

end
